theory Spec2Isabelle
  imports Complex_Main "HOL-Library.Sublist" "HOL-Library.AList"
begin

section \<open>Python values\<close>

text \<open>
  The transform works on whatever \<^verbatim>\<open>json.loads\<close> returns, so the model is dynamically
  typed: a recipe, an ingredient and an amount are values of one type \<open>json\<close>, and every
  operation that Python would refuse is an error value.

  A Python \<^verbatim>\<open>float\<close> is a binary64 number. Its finite values are rationals; the two
  infinities and NaN are separate constructors (\<^verbatim>\<open>json.loads\<close> accepts \<^verbatim>\<open>Infinity\<close> and
  \<^verbatim>\<open>NaN\<close>, and \<^verbatim>\<open>float('1e999')\<close> is \<^verbatim>\<open>inf\<close>). The sign of zero is not represented: no
  operation of the program observes it.

  A \<^verbatim>\<open>dict\<close> is an association list read with \<open>map_of\<close> and written with
  \<open>AList.update\<close>, which replaces the value of a key in place and puts a new key at the
  end, as insertion into a \<^verbatim>\<open>dict\<close> does.

  A \<^verbatim>\<open>str\<close> is a \<open>string\<close>, each character read as the code point of its number:
  the model has the strings of code points below 256, and on these \<open>lower\<close>, \<open>split\<close>
  and \<open>float_of_str\<close> are what \<^verbatim>\<open>str.lower\<close>, \<^verbatim>\<open>str.split\<close> and \<^verbatim>\<open>float\<close> compute.
\<close>

datatype pyfloat = Fin rat | PInf | NInf | NaN

datatype json =
    JNull
  | JBool bool
  | JInt int
  | JFloat pyfloat
  | JStr string
  | JList "json list"
  | JObj "(string \<times> json) list"

datatype error =
    AttributeError
  | TypeError
  | ValueError
  | OverflowError
  | ZeroDivisionError
  | ClientError
  | OtherException string
  | InvalidReference

text \<open>
  \<open>InvalidReference\<close> is the model's own: it is the result of reading an address that
  holds no object, which no Python reference does.
\<close>

definition bindE :: "error + 'a \<Rightarrow> ('a \<Rightarrow> error + 'b) \<Rightarrow> error + 'b" where
  "bindE m f = (case m of Inl e \<Rightarrow> Inl e | Inr x \<Rightarrow> f x)"

text \<open>A \<^verbatim>\<open>for\<close> loop over a list that updates one local variable and may raise.\<close>

fun for_each :: "('a \<Rightarrow> 's \<Rightarrow> error + 's) \<Rightarrow> 'a list \<Rightarrow> 's \<Rightarrow> error + 's" where
  "for_each body [] s = Inr s"
| "for_each body (x # xs) s = bindE (body x s) (for_each body xs)"

text \<open>A list comprehension \<^verbatim>\<open>[f(x) for x in xs]\<close> whose element expression may raise.\<close>

fun comprehension :: "('a \<Rightarrow> error + 'b) \<Rightarrow> 'a list \<Rightarrow> error + 'b list" where
  "comprehension f [] = Inr []"
| "comprehension f (x # xs) =
     bindE (f x) (\<lambda>y. bindE (comprehension f xs) (\<lambda>ys. Inr (y # ys)))"

subsection \<open>Rounding to binary64\<close>

definition pow2 :: "int \<Rightarrow> rat" where
  "pow2 e = (if 0 \<le> e then 2 ^ nat e else 1 / 2 ^ nat (- e))"

definition round_half_even :: "rat \<Rightarrow> int" where
  "round_half_even x =
     (let f = \<lfloor>x\<rfloor>; d = x - of_int f
      in if d < 1 / 2 then f else if 1 / 2 < d then f + 1 else if even f then f else f + 1)"

text \<open>The number of binary digits of a positive integer.\<close>

function bit_length :: "int \<Rightarrow> nat" where
  "bit_length n = (if n \<le> 0 then 0 else Suc (bit_length (n div 2)))"
  by pat_completeness auto
termination
  by (relation "measure nat") auto

text \<open>\<open>ilog2 x\<close> is the integer \<open>e\<close> with \<open>2^e \<le> |x| < 2^(e+1)\<close>, for \<open>x \<noteq> 0\<close>.\<close>

definition ilog2 :: "rat \<Rightarrow> int" where
  "ilog2 x =
     (let (n, d) = quotient_of \<bar>x\<bar>;
          e = int (bit_length n) - int (bit_length d)
      in if pow2 e \<le> \<bar>x\<bar> then e else e - 1)"

text \<open>
  Round to nearest, ties to even, with 53 significant bits and subnormals below
  \<open>2^-1022\<close>. The result is an infinity when the rounded value reaches \<open>2^1024\<close>: the
  exponent is above 1023, or it is 1023 and the significand was rounded up to \<open>2^53\<close>.
\<close>

definition round64 :: "rat \<Rightarrow> pyfloat" where
  "round64 x =
     (if x = 0 then Fin 0
      else let e = max (ilog2 x) (- 1022);
               q = pow2 (e - 52);
               m = round_half_even (x / q)
           in if 1024 \<le> e \<or> (e = 1023 \<and> \<bar>m\<bar> = 2 ^ 53) then (if 0 < x then PInf else NInf)
              else Fin (of_int m * q))"

text \<open>\<^verbatim>\<open>c * amount\<close> with \<^verbatim>\<open>c\<close> an \<^verbatim>\<open>int\<close> of the calorie table and \<^verbatim>\<open>amount\<close> a float.\<close>

definition int_times_float :: "int \<Rightarrow> pyfloat \<Rightarrow> pyfloat" where
  "int_times_float c a =
     (case a of
        Fin r \<Rightarrow> round64 (of_int c * r)
      | PInf \<Rightarrow> (if 0 < c then PInf else if c < 0 then NInf else NaN)
      | NInf \<Rightarrow> (if 0 < c then NInf else if c < 0 then PInf else NaN)
      | NaN \<Rightarrow> NaN)"

text \<open>\<^verbatim>\<open>int(x)\<close> of a float: truncation towards zero.\<close>

definition py_int :: "pyfloat \<Rightarrow> error + int" where
  "py_int x =
     (case x of
        Fin r \<Rightarrow> Inr (if 0 \<le> r then \<lfloor>r\<rfloor> else \<lceil>r\<rceil>)
      | NaN \<Rightarrow> Inl ValueError
      | _ \<Rightarrow> Inl OverflowError)"

subsection \<open>Strings\<close>

text \<open>
  The code points below 256 that \<^verbatim>\<open>str.lower\<close> changes are the letters A to Z and the
  letters from 192 to 222 but the multiplication sign 215; each moves up by 32.
\<close>

definition lower_char :: "char \<Rightarrow> char" where
  "lower_char c =
     (let n = (of_char c :: nat)
      in if (65 \<le> n \<and> n \<le> 90) \<or> (192 \<le> n \<and> n \<le> 222 \<and> n \<noteq> 215) then char_of (n + 32)
         else c)"

definition lower :: "string \<Rightarrow> string" where
  "lower s = map lower_char s"

text \<open>\<^verbatim>\<open>sub in s\<close> for two strings.\<close>

fun str_contains :: "string \<Rightarrow> string \<Rightarrow> bool" where
  "str_contains sub [] = (sub = [])"
| "str_contains sub (c # cs) = (prefix sub (c # cs) \<or> str_contains sub cs)"

text \<open>\<^verbatim>\<open>any(k in name for k in keywords)\<close>\<close>

definition any_in :: "string list \<Rightarrow> string \<Rightarrow> bool" where
  "any_in keywords name = list_ex (\<lambda>k. str_contains k name) keywords"

text \<open>
  \<^verbatim>\<open>c.isspace()\<close>, the white space at which \<^verbatim>\<open>str.split\<close> splits: below 256 these are
  the codes 9 to 13, 28 to 32, 133 (next line) and 160 (no-break space).
\<close>

definition is_space :: "char \<Rightarrow> bool" where
  "is_space c = ((of_char c :: nat) \<in> {9, 10, 11, 12, 13, 28, 29, 30, 31, 32, 133, 160})"

text \<open>
  The white space that \<^verbatim>\<open>float\<close> strips from a string: a white space above 127 is turned
  into a blank first, and of the ASCII codes only 9 to 13 and 32 are stripped, so the
  separators 28 to 31 are not.
\<close>

definition is_float_space :: "char \<Rightarrow> bool" where
  "is_float_space c = ((of_char c :: nat) \<in> {9, 10, 11, 12, 13, 32, 133, 160})"

definition is_digit :: "char \<Rightarrow> bool" where
  "is_digit c = (48 \<le> (of_char c :: nat) \<and> (of_char c :: nat) \<le> 57)"

text \<open>\<^verbatim>\<open>s.split()\<close>: the maximal runs of characters that are not white space.\<close>

fun split_acc :: "string \<Rightarrow> string \<Rightarrow> string list" where
  "split_acc cur [] = (if cur = [] then [] else [rev cur])"
| "split_acc cur (c # cs) =
     (if is_space c then (if cur = [] then split_acc [] cs else rev cur # split_acc [] cs)
      else split_acc (c # cur) cs)"

definition split :: "string \<Rightarrow> string list" where
  "split s = split_acc [] s"

text \<open>\<^verbatim>\<open>sep.join(xs)\<close>\<close>

fun join :: "string \<Rightarrow> string list \<Rightarrow> string" where
  "join sep [] = []"
| "join sep [x] = x"
| "join sep (x # y # ys) = x @ sep @ join sep (y # ys)"

subsection \<open>\<^verbatim>\<open>float(s)\<close> for a string\<close>

text \<open>
  The grammar of the language reference: white space is stripped from both ends, then an
  optional sign, then \<^verbatim>\<open>inf\<close>, \<^verbatim>\<open>infinity\<close> or \<^verbatim>\<open>nan\<close> in any case, or a decimal
  number \<^verbatim>\<open>[digits] . digits | digits [.]\<close> with an optional exponent; single underscores
  may separate digits. The digits below 256 are 0 to 9. The value is the decimal number
  rounded to binary64.
\<close>

fun digits_tail :: "string \<Rightarrow> string \<times> string" where
  "digits_tail [] = ([], [])"
| "digits_tail (c # cs) =
     (if is_digit c then (case digits_tail cs of (ds, r) \<Rightarrow> (c # ds, r))
      else if c = CHR ''_'' then
        (case cs of
           [] \<Rightarrow> ([], c # cs)
         | d # cs' \<Rightarrow>
             if is_digit d then (case digits_tail cs' of (ds, r) \<Rightarrow> (d # ds, r))
             else ([], c # cs))
      else ([], c # cs))"

definition digitpart :: "string \<Rightarrow> (string \<times> string) option" where
  "digitpart s =
     (case s of [] \<Rightarrow> None | c # cs \<Rightarrow> if is_digit c then Some (digits_tail s) else None)"

definition digits_value :: "string \<Rightarrow> int" where
  "digits_value ds = foldl (\<lambda>a c. 10 * a + (of_char c - 48)) 0 ds"

text \<open>The mantissa: integer digits, fraction digits and what follows them.\<close>

definition number_part :: "string \<Rightarrow> (string \<times> string \<times> string) option" where
  "number_part s =
     (case digitpart s of
        Some (ip, r1) \<Rightarrow>
          (case r1 of
             [] \<Rightarrow> Some (ip, [], r1)
           | c # r2 \<Rightarrow>
               if c = CHR ''.'' then
                 (case digitpart r2 of Some (fp, r3) \<Rightarrow> Some (ip, fp, r3) | None \<Rightarrow> Some (ip, [], r2))
               else Some (ip, [], r1))
      | None \<Rightarrow>
          (case s of
             [] \<Rightarrow> None
           | c # r2 \<Rightarrow>
               if c = CHR ''.'' then
                 (case digitpart r2 of Some (fp, r3) \<Rightarrow> Some ([], fp, r3) | None \<Rightarrow> None)
               else None))"

definition sign_part :: "string \<Rightarrow> bool \<times> string" where
  "sign_part s =
     (case s of
        [] \<Rightarrow> (False, s)
      | c # cs \<Rightarrow> if c = CHR ''-'' then (True, cs) else if c = CHR ''+'' then (False, cs) else (False, s))"

text \<open>The exponent: nothing, or \<^verbatim>\<open>e\<close>, an optional sign and digits up to the end.\<close>

definition exponent_part :: "string \<Rightarrow> int option" where
  "exponent_part s =
     (case s of
        [] \<Rightarrow> Some 0
      | c # cs \<Rightarrow>
          if c = CHR ''e'' then
            (case sign_part cs of
               (neg, r) \<Rightarrow>
                 (case digitpart r of
                    Some (ds, []) \<Rightarrow> Some (if neg then - digits_value ds else digits_value ds)
                  | _ \<Rightarrow> None))
          else None)"

definition strip :: "string \<Rightarrow> string" where
  "strip s = rev (dropWhile is_float_space (rev (dropWhile is_float_space s)))"

definition float_of_str :: "string \<Rightarrow> pyfloat option" where
  "float_of_str s =
     (case sign_part (lower (strip s)) of
        (neg, body) \<Rightarrow>
          if body = ''inf'' \<or> body = ''infinity'' then Some (if neg then NInf else PInf)
          else if body = ''nan'' then Some NaN
          else
            (case number_part body of
               None \<Rightarrow> None
             | Some (ip, fp, r) \<Rightarrow>
                 (case exponent_part r of
                    None \<Rightarrow> None
                  | Some ex \<Rightarrow>
                      let m = of_int (digits_value (ip @ fp)) * (if neg then - 1 else 1);
                          e = ex - int (length fp)
                      in Some (round64
                           (if 0 \<le> e then m * 10 ^ nat e else m / 10 ^ nat (- e))))))"

subsection \<open>Operations on dynamically typed values\<close>

text \<open>\<^verbatim>\<open>float(v)\<close>\<close>

definition py_float :: "json \<Rightarrow> error + pyfloat" where
  "py_float v =
     (case v of
        JInt n \<Rightarrow> (case round64 (of_int n) of Fin r \<Rightarrow> Inr (Fin r) | _ \<Rightarrow> Inl OverflowError)
      | JFloat f \<Rightarrow> Inr f
      | JBool b \<Rightarrow> Inr (Fin (if b then 1 else 0))
      | JStr s \<Rightarrow> (case float_of_str s of None \<Rightarrow> Inl ValueError | Some f \<Rightarrow> Inr f)
      | _ \<Rightarrow> Inl TypeError)"

text \<open>\<^verbatim>\<open>len(v)\<close>\<close>

definition py_len :: "json \<Rightarrow> error + nat" where
  "py_len v =
     (case v of
        JList xs \<Rightarrow> Inr (length xs)
      | JStr s \<Rightarrow> Inr (length s)
      | JObj d \<Rightarrow> Inr (length (remdups (map fst d)))
      | _ \<Rightarrow> Inl TypeError)"

text \<open>
  \<^verbatim>\<open>for x in v\<close>: the elements of a list, the characters of a string, the keys of a dict.
\<close>

definition py_iter :: "json \<Rightarrow> error + json list" where
  "py_iter v =
     (case v of
        JList xs \<Rightarrow> Inr xs
      | JStr s \<Rightarrow> Inr (map (\<lambda>c. JStr [c]) s)
      | JObj d \<Rightarrow> Inr (map JStr (remdups (map fst d)))
      | _ \<Rightarrow> Inl TypeError)"

text \<open>\<^verbatim>\<open>v.get(key, default)\<close>: only a dict has the method.\<close>

definition py_get :: "json \<Rightarrow> string \<Rightarrow> json \<Rightarrow> error + json" where
  "py_get v key dflt =
     (case v of
        JObj d \<Rightarrow> Inr (case map_of d key of None \<Rightarrow> dflt | Some x \<Rightarrow> x)
      | _ \<Rightarrow> Inl AttributeError)"

text \<open>\<^verbatim>\<open>v.lower()\<close> and \<^verbatim>\<open>v.split()\<close>: only a string has the methods.\<close>

definition py_lower :: "json \<Rightarrow> error + string" where
  "py_lower v = (case v of JStr s \<Rightarrow> Inr (lower s) | _ \<Rightarrow> Inl AttributeError)"

definition py_split :: "json \<Rightarrow> error + string list" where
  "py_split v = (case v of JStr s \<Rightarrow> Inr (split s) | _ \<Rightarrow> Inl AttributeError)"

text \<open>\<^verbatim>\<open>ingredient.get('name', '').lower()\<close>, the expression every deriver starts from.\<close>

definition ingredient_name :: "json \<Rightarrow> error + string" where
  "ingredient_name ingredient = bindE (py_get ingredient ''name'' (JStr [])) py_lower"

section \<open>Field derivers\<close>

subsection \<open>\<^verbatim>\<open>calculate_complexity_score\<close>\<close>

text \<open>
  The score is a float. Every value it takes is a multiple of one half below \<open>2^53\<close>
  (a list has fewer than \<open>2^52\<close> elements), and binary64 adds those exactly, so the
  arithmetic is that of the rationals.
\<close>

definition specialty_ingredients :: "string list" where
  "specialty_ingredients = [''elderflower'', ''orgeat'', ''falernum'', ''amaro'', ''chartreuse'']"

definition fresh_indicators :: "string list" where
  "fresh_indicators = [''juice'', ''mint'', ''lemon'', ''lime'', ''orange'']"

text \<open>The body of the two bonus loops: \<^verbatim>\<open>if any(k in name for k in keywords): score += bonus\<close>.\<close>

definition bonus_step :: "string list \<Rightarrow> rat \<Rightarrow> json \<Rightarrow> rat \<Rightarrow> error + rat" where
  "bonus_step keywords bonus ingredient score =
     bindE (ingredient_name ingredient)
       (\<lambda>name. Inr (if any_in keywords name then score + bonus else score))"

definition calculate_complexity_score :: "json \<Rightarrow> error + rat" where
  "calculate_complexity_score ingredients =
     bindE (py_len ingredients) (\<lambda>n.
     bindE (py_iter ingredients) (\<lambda>items.
     bindE (for_each (bonus_step specialty_ingredients 1) items (0 + min (of_nat n * (1 / 2)) 3))
       (\<lambda>score.
     bindE (for_each (bonus_step fresh_indicators (1 / 2)) items score) (\<lambda>score.
     Inr (min score 10)))))"

subsection \<open>\<^verbatim>\<open>estimate_prep_time\<close>\<close>

text \<open>\<^verbatim>\<open>v.count(c)\<close> for a one-character \<^verbatim>\<open>c\<close>: only a string has the method here.\<close>

definition py_count :: "json \<Rightarrow> char \<Rightarrow> error + int" where
  "py_count v c =
     (case v of JStr s \<Rightarrow> Inr (int (length (filter (\<lambda>x. x = c) s))) | _ \<Rightarrow> Inl AttributeError)"

definition estimate_prep_time :: "json \<Rightarrow> json \<Rightarrow> error + int" where
  "estimate_prep_time ingredients instructions =
     (let base_time = 3
      in bindE (py_lower instructions) (\<lambda>low.
     let base_time = (if str_contains ''muddle'' low then base_time + 2 else base_time)
      in bindE (py_lower instructions) (\<lambda>low.
     let base_time = (if str_contains ''shake'' low then base_time + 1 else base_time)
      in bindE (py_count instructions CHR ''.'') (\<lambda>dots.
     bindE (py_count instructions CHR '';'') (\<lambda>semicolons.
     let steps = dots + semicolons;
         base_time = base_time + max 0 (steps - 2)
      in Inr (min base_time 15))))))"

subsection \<open>\<^verbatim>\<open>identify_spirit_type\<close>\<close>

text \<open>The dict literal \<^verbatim>\<open>spirit_map\<close>, in the order \<^verbatim>\<open>items()\<close> yields it.\<close>

definition spirit_map :: "(string \<times> string list) list" where
  "spirit_map =
     [(''vodka'', [''vodka'', ''absolut'', ''smirnoff'']),
      (''gin'', [''gin'', ''hendrick'', ''tanqueray'']),
      (''rum'', [''rum'', ''bacardi'', ''havana club'']),
      (''tequila'', [''tequila'', ''patron'', ''reposado'']),
      (''whiskey'', [''whiskey'', ''bourbon'', ''scotch'', ''rye'']),
      (''brandy'', [''brandy'', ''cognac'', ''armagnac''])]"

text \<open>The inner loop: does it reach an ingredient that matches, and so return?\<close>

fun scan_ingredients :: "string list \<Rightarrow> json list \<Rightarrow> error + bool" where
  "scan_ingredients keywords [] = Inr False"
| "scan_ingredients keywords (ingredient # rest) =
     bindE (ingredient_name ingredient)
       (\<lambda>name. if any_in keywords name then Inr True else scan_ingredients keywords rest)"

fun spirit_loop :: "(string \<times> string list) list \<Rightarrow> json list \<Rightarrow> error + string" where
  "spirit_loop [] items = Inr ''non-alcoholic''"
| "spirit_loop ((spirit, keywords) # rest) items =
     bindE (scan_ingredients keywords items)
       (\<lambda>found. if found then Inr spirit else spirit_loop rest items)"

definition identify_spirit_type :: "json \<Rightarrow> error + string" where
  "identify_spirit_type ingredients = bindE (py_iter ingredients) (spirit_loop spirit_map)"

subsection \<open>\<^verbatim>\<open>estimate_calories\<close>\<close>

definition calorie_map :: "(string \<times> int) list" where
  "calorie_map =
     [(''rum'', 97), (''vodka'', 64), (''gin'', 70), (''tequila'', 69), (''whiskey'', 70),
      (''brandy'', 65), (''triple sec'', 75), (''lime juice'', 8), (''simple syrup'', 53),
      (''soda'', 0)]"

text \<open>
  The inner loop with its \<^verbatim>\<open>break\<close>: what the first matching key adds to the total,
  0 when no key matches.
\<close>

fun table_scan :: "(string \<times> int) list \<Rightarrow> string \<Rightarrow> pyfloat \<Rightarrow> error + int" where
  "table_scan [] name amount = Inr 0"
| "table_scan ((key, calories_per_oz) # rest) name amount =
     (if str_contains key name then py_int (int_times_float calories_per_oz amount)
      else table_scan rest name amount)"

text \<open>One pass of the outer loop: the name, then the amount, then the table.\<close>

definition ingredient_calories :: "json \<Rightarrow> error + int" where
  "ingredient_calories ingredient =
     bindE (ingredient_name ingredient) (\<lambda>name.
     bindE (bindE (py_get ingredient ''amount'' (JInt 0)) py_float) (\<lambda>amount.
     table_scan calorie_map name amount))"

definition estimate_calories :: "json \<Rightarrow> error + int" where
  "estimate_calories ingredients =
     bindE (py_iter ingredients)
       (\<lambda>items. for_each
          (\<lambda>ingredient total_calories.
             bindE (ingredient_calories ingredient) (\<lambda>c. Inr (total_calories + c)))
          items 0)"

subsection \<open>\<^verbatim>\<open>generate_tags\<close>\<close>

text \<open>
  \<^verbatim>\<open>list(set(tags))\<close> keeps one copy of each tag, in an order Python does not specify;
  \<open>remdups\<close> is one such list, and what is proved of the tags is proved of the set of its
  elements.
\<close>

definition generate_tags :: "json \<Rightarrow> error + string list" where
  "generate_tags cocktail =
     (let tags = []
      in bindE (bindE (py_get cocktail ''category'' (JStr [])) py_lower) (\<lambda>category.
     let tags = (if category \<noteq> [] then tags @ [category] else tags)
      in bindE (bindE (py_get cocktail ''glass'' (JStr [])) py_lower) (\<lambda>glass.
     let tags = (if glass \<noteq> [] then tags @ [glass] else tags)
      in bindE (py_get cocktail ''ingredients'' (JList [])) (\<lambda>ingredients.
     bindE (identify_spirit_type ingredients) (\<lambda>spirit.
     let tags = (if spirit \<noteq> ''non-alcoholic'' then tags @ [spirit] else tags)
      in bindE (bindE (py_get cocktail ''instructions'' (JStr [])) py_lower) (\<lambda>instructions.
     let tags = (if str_contains ''shake'' instructions then tags @ [''shaken''] else tags);
         tags = (if str_contains ''stir'' instructions then tags @ [''stirred''] else tags);
         tags = (if str_contains ''muddle'' instructions then tags @ [''muddled''] else tags)
      in bindE (calculate_complexity_score ingredients) (\<lambda>complexity.
     let tags =
           (if complexity < 3 then tags @ [''simple'']
            else if complexity < 6 then tags @ [''intermediate'']
            else tags @ [''complex''])
      in Inr (remdups tags))))))))"

section \<open>Record enricher\<close>

text \<open>
  \<^verbatim>\<open>enrich_single_cocktail\<close> copies the dict it is given and assigns to the copy, so the
  two dicts are objects with an identity. The store is the list of the objects allocated
  so far, an address is an index into it, and a new object goes to the end. The values a
  dict holds (the ingredient list among them) are never assigned to by this program and
  stay plain values.
\<close>

type_synonym store = "json list"

definition load :: "store \<Rightarrow> nat \<Rightarrow> error + json" where
  "load h a = (if a < length h then Inr (h ! a) else Inl InvalidReference)"

text \<open>
  \<^verbatim>\<open>obj.copy()\<close>: a dict and a list have the method, and the copy is a new object.
\<close>

definition py_copy :: "store \<Rightarrow> nat \<Rightarrow> error + (store \<times> nat)" where
  "py_copy h a =
     bindE (load h a) (\<lambda>obj.
       case obj of
         JObj d \<Rightarrow> Inr (h @ [JObj d], length h)
       | JList xs \<Rightarrow> Inr (h @ [JList xs], length h)
       | _ \<Rightarrow> Inl AttributeError)"

text \<open>\<^verbatim>\<open>obj[key] = v\<close> with a string key: only a dict accepts it.\<close>

definition setitem :: "store \<Rightarrow> nat \<Rightarrow> string \<Rightarrow> json \<Rightarrow> error + store" where
  "setitem h a key v =
     bindE (load h a) (\<lambda>obj.
       case obj of
         JObj d \<Rightarrow> Inr (h[a := JObj (AList.update key v d)])
       | _ \<Rightarrow> Inl TypeError)"

text \<open>\<^verbatim>\<open>obj.get(key, default)\<close> through a reference.\<close>

definition get_at :: "store \<Rightarrow> nat \<Rightarrow> string \<Rightarrow> json \<Rightarrow> error + json" where
  "get_at h a key dflt = bindE (load h a) (\<lambda>obj. py_get obj key dflt)"

text \<open>
  The clock is a parameter: \<open>now\<close> is what \<^verbatim>\<open>datetime.now().isoformat()\<close> returns in this
  call.
\<close>

definition enrich_single_cocktail :: "string \<Rightarrow> store \<Rightarrow> nat \<Rightarrow> error + (store \<times> nat)" where
  "enrich_single_cocktail now h cocktail =
     bindE (py_copy h cocktail) (\<lambda>(h, enriched).
     bindE (setitem h enriched ''enriched_at'' (JStr now)) (\<lambda>h.
     bindE (get_at h enriched ''ingredients'' (JList [])) (\<lambda>ingredients.
     bindE (py_len ingredients) (\<lambda>n.
     bindE (setitem h enriched ''ingredient_count'' (JInt (int n))) (\<lambda>h.
     bindE (calculate_complexity_score ingredients) (\<lambda>score.
     bindE (setitem h enriched ''complexity_score'' (JFloat (Fin score))) (\<lambda>h.
     bindE (get_at h enriched ''instructions'' (JStr [])) (\<lambda>instructions.
     bindE (py_split instructions) (\<lambda>ws.
     bindE (setitem h enriched ''instruction_word_count'' (JInt (int (length ws)))) (\<lambda>h.
     bindE (estimate_prep_time ingredients instructions) (\<lambda>prep.
     bindE (setitem h enriched ''estimated_prep_time'' (JInt prep)) (\<lambda>h.
     bindE (py_iter ingredients) (\<lambda>items.
     bindE (comprehension ingredient_name items) (\<lambda>names.
     bindE (setitem h enriched ''is_alcoholic'' (JBool (str_contains ''rum'' (join '' '' names))))
       (\<lambda>h.
     bindE (identify_spirit_type ingredients) (\<lambda>spirit.
     bindE (setitem h enriched ''spirit_type'' (JStr spirit)) (\<lambda>h.
     bindE (estimate_calories ingredients) (\<lambda>calories.
     bindE (setitem h enriched ''estimated_calories'' (JInt calories)) (\<lambda>h.
     bindE (load h cocktail) (\<lambda>source.
     bindE (generate_tags source) (\<lambda>tags.
     bindE (setitem h enriched ''tags'' (JList (map JStr tags))) (\<lambda>h.
     Inr (h, enriched)))))))))))))))))))))))"

section \<open>Batch pipeline\<close>

text \<open>
  What lies outside the program is a parameter: the two S3 calls, the DynamoDB call and the
  clock. \<open>s3_get_object\<close> is \<^verbatim>\<open>get_object\<close> followed by \<^verbatim>\<open>json.loads\<close> of the body;
  \<open>s3_put_object\<close> receives the collection before \<^verbatim>\<open>json.dumps\<close> turns it into text;
  \<open>put_item\<close> receives the summary before \<^verbatim>\<open>str\<close> formats its numbers. Each of the three
  either succeeds or raises the error it returns.
\<close>

record env =
  s3_get_object :: "string \<Rightarrow> string \<Rightarrow> error + json"
  s3_put_object :: "string \<Rightarrow> string \<Rightarrow> json \<Rightarrow> error option"
  put_item :: "string \<Rightarrow> (string \<times> json) list \<Rightarrow> error option"
  today :: string
  isoformat_now :: "nat \<Rightarrow> string"

text \<open>
  \<open>today\<close> is \<^verbatim>\<open>datetime.now().strftime('%Y/%m/%d')\<close>; \<open>isoformat_now env i\<close> is the
  reading of the clock for the record at position \<open>i\<close>, and the one after the last record
  is the reading for the summary.
\<close>

record event =
  input_bucket :: "string option"
  output_bucket :: "string option"
  date_partition :: "string option"

record response =
  statusCode :: int
  message :: string
  records_processed :: nat
  output_location :: string

definition read_from_s3 :: "env \<Rightarrow> string \<Rightarrow> string \<Rightarrow> error + json list" where
  "read_from_s3 e bucket key =
     bindE (s3_get_object e bucket key)
       (\<lambda>data. Inr (case data of JList xs \<Rightarrow> xs | _ \<Rightarrow> [data]))"

text \<open>
  The records read are the first objects of the store, the record at position \<open>i\<close> at
  address \<open>i\<close>; the result is the store and the addresses of the enriched records.
\<close>

definition enrich_cocktail_data :: "env \<Rightarrow> string \<Rightarrow> string \<Rightarrow> error + (store \<times> nat list)" where
  "enrich_cocktail_data e bucket dpart =
     (let input_key = ''transformed/'' @ dpart @ ''/transformed_cocktail_data.json''
      in bindE (read_from_s3 e bucket input_key) (\<lambda>cocktail_data.
         for_each
           (\<lambda>cocktail (h, enriched_recipes).
              bindE (enrich_single_cocktail (isoformat_now e cocktail) h cocktail)
                (\<lambda>(h, enriched_cocktail). Inr (h, enriched_recipes @ [enriched_cocktail])))
           [0..<length cocktail_data] (cocktail_data, [])))"

definition write_to_s3 :: "env \<Rightarrow> store \<Rightarrow> nat list \<Rightarrow> string \<Rightarrow> string \<Rightarrow> error + unit" where
  "write_to_s3 e h data bucket key =
     bindE (comprehension (load h) data) (\<lambda>values.
       case s3_put_object e bucket key (JList values) of
         None \<Rightarrow> Inr ()
       | Some err \<Rightarrow> Inl err)"

subsection \<open>Numbers of the summary\<close>

definition float_add :: "pyfloat \<Rightarrow> pyfloat \<Rightarrow> pyfloat" where
  "float_add a b =
     (case (a, b) of
        (Fin x, Fin y) \<Rightarrow> round64 (x + y)
      | (NaN, _) \<Rightarrow> NaN
      | (_, NaN) \<Rightarrow> NaN
      | (PInf, NInf) \<Rightarrow> NaN
      | (NInf, PInf) \<Rightarrow> NaN
      | (PInf, _) \<Rightarrow> PInf
      | (_, PInf) \<Rightarrow> PInf
      | (NInf, _) \<Rightarrow> NInf
      | (_, NInf) \<Rightarrow> NInf)"

text \<open>A number is an \<^verbatim>\<open>int\<close> (a \<^verbatim>\<open>bool\<close> is one) or a \<^verbatim>\<open>float\<close>.\<close>

definition as_number :: "json \<Rightarrow> error + (int + pyfloat)" where
  "as_number v =
     (case v of
        JInt n \<Rightarrow> Inr (Inl n)
      | JBool b \<Rightarrow> Inr (Inl (if b then 1 else 0))
      | JFloat f \<Rightarrow> Inr (Inr f)
      | _ \<Rightarrow> Inl TypeError)"

definition float_of_number :: "int + pyfloat \<Rightarrow> error + pyfloat" where
  "float_of_number x = (case x of Inl n \<Rightarrow> py_float (JInt n) | Inr f \<Rightarrow> Inr f)"

text \<open>\<^verbatim>\<open>a + b\<close>\<close>

definition py_add :: "json \<Rightarrow> json \<Rightarrow> error + json" where
  "py_add a b =
     bindE (as_number a) (\<lambda>x.
     bindE (as_number b) (\<lambda>y.
       case (x, y) of
         (Inl m, Inl n) \<Rightarrow> Inr (JInt (m + n))
       | _ \<Rightarrow>
           bindE (float_of_number x) (\<lambda>f.
           bindE (float_of_number y) (\<lambda>g. Inr (JFloat (float_add f g))))))"

text \<open>
  \<^verbatim>\<open>sum(f(c) for c in xs)\<close>: it starts from the \<^verbatim>\<open>int\<close> 0, and the generator yields
  each term just before it is added. Every addition of floats is rounded here; an
  interpreter that compensates the rounding errors of a float sum returns the same for
  the terms this program adds, the complexity scores, whose sums are exact.
\<close>

definition py_sum :: "('a \<Rightarrow> error + json) \<Rightarrow> 'a list \<Rightarrow> error + json" where
  "py_sum f xs = for_each (\<lambda>x acc. bindE (f x) (py_add acc)) xs (JInt 0)"

text \<open>
  \<^verbatim>\<open>a / n\<close> for a number \<^verbatim>\<open>a\<close> and the \<^verbatim>\<open>int\<close> \<^verbatim>\<open>n\<close> that \<^verbatim>\<open>len\<close> returned: a zero divisor
  raises, for an \<^verbatim>\<open>int\<close> and for a \<^verbatim>\<open>float\<close> dividend alike.
\<close>

definition py_truediv :: "json \<Rightarrow> nat \<Rightarrow> error + pyfloat" where
  "py_truediv a n =
     bindE (as_number a) (\<lambda>x.
       if n = 0 then Inl ZeroDivisionError
       else
         (case x of
            Inl m \<Rightarrow>
              (case round64 (of_int m / of_nat n) of
                 Fin r \<Rightarrow> Inr (Fin r)
               | _ \<Rightarrow> Inl OverflowError)
          | Inr f \<Rightarrow>
              bindE (py_float (JInt (int n))) (\<lambda>g.
                Inr (case (f, g) of (Fin r, Fin d) \<Rightarrow> round64 (r / d) | _ \<Rightarrow> f))))"

text \<open>
  The body of the \<^verbatim>\<open>try\<close> of \<^verbatim>\<open>write_processing_summary\<close>: the dict display is
  evaluated entry by entry, then the item is put.
\<close>

definition summary_try :: "env \<Rightarrow> store \<Rightarrow> nat list \<Rightarrow> string \<Rightarrow> error + unit" where
  "summary_try e h data dpart =
     bindE (comprehension (load h) data) (\<lambda>cs.
     let processed_at = isoformat_now e (length data);
         record_count = JInt (int (length data))
      in bindE (py_sum (\<lambda>c. py_get c ''ingredient_count'' (JInt 0)) cs) (\<lambda>total_ingredients.
     bindE (py_sum (\<lambda>c. py_get c ''complexity_score'' (JInt 0)) cs) (\<lambda>total.
     bindE (py_truediv total (length data)) (\<lambda>avg_complexity.
       case put_item e ''mocktailverse-processing-summary''
              [(''date_partition'', JStr dpart),
               (''processed_at'', JStr processed_at),
               (''record_count'', record_count),
               (''total_ingredients'', total_ingredients),
               (''avg_complexity'', JFloat avg_complexity)] of
         None \<Rightarrow> Inr ()
       | Some err \<Rightarrow> Inl err))))"

text \<open>\<^verbatim>\<open>except ClientError\<close>: that one error is logged and the function returns.\<close>

definition write_processing_summary :: "env \<Rightarrow> store \<Rightarrow> nat list \<Rightarrow> string \<Rightarrow> error + unit" where
  "write_processing_summary e h data dpart =
     (case summary_try e h data dpart of
        Inl ClientError \<Rightarrow> Inr ()
      | r \<Rightarrow> r)"

text \<open>
  \<^verbatim>\<open>except Exception\<close> in the handler logs and raises again, so an error of the body is
  the error of the handler.
\<close>

definition lambda_handler :: "env \<Rightarrow> event \<Rightarrow> error + response" where
  "lambda_handler e ev =
     (let input_bucket =
            (case input_bucket ev of None \<Rightarrow> ''mocktailverse-processed-data'' | Some b \<Rightarrow> b);
          output_bucket =
            (case output_bucket ev of None \<Rightarrow> ''mocktailverse-processed-data'' | Some b \<Rightarrow> b);
          date_partition = (case date_partition ev of None \<Rightarrow> today e | Some p \<Rightarrow> p)
      in bindE (enrich_cocktail_data e input_bucket date_partition) (\<lambda>(h, enriched_data).
         let output_key = ''enriched/'' @ date_partition @ ''/enriched_cocktail_data.json''
         in bindE (write_to_s3 e h enriched_data output_bucket output_key) (\<lambda>_.
            bindE (write_processing_summary e h enriched_data date_partition) (\<lambda>_.
            Inr \<lparr>statusCode = 200,
                 message = ''Data enrichment completed successfully'',
                 records_processed = length enriched_data,
                 output_location = ''s3://'' @ output_bucket @ ''/'' @ output_key\<rparr>))))"

section \<open>The specification's words\<close>

text \<open>
  Spirit type as the specification words it: the first key of the keyword map, in its
  fixed order, for which some ingredient name contains one of the key's keywords, and
  \<^verbatim>\<open>non-alcoholic\<close> when there is none. \<open>names\<close> are the lowercased ingredient names.
\<close>

definition first_matching_spirit :: "string list \<Rightarrow> string" where
  "first_matching_spirit names =
     (case find (\<lambda>(spirit, keywords). list_ex (any_in keywords) names) spirit_map of
        None \<Rightarrow> ''non-alcoholic''
      | Some (spirit, keywords) \<Rightarrow> spirit)"

section \<open>The scenario of the specification\<close>

definition scenario_ingredients :: "json list" where
  "scenario_ingredients =
     [JObj [(''name'', JStr ''Light Rum''), (''amount'', JInt 2)],
      JObj [(''name'', JStr ''Lime Juice''), (''amount'', JInt 1)],
      JObj [(''name'', JStr ''Simple Syrup''), (''amount'', JFloat (Fin (3 / 4)))]]"

definition scenario_instructions :: string where
  "scenario_instructions = ''Shake all ingredients with ice. Strain into glass.''"

definition scenario_recipe :: json where
  "scenario_recipe =
     JObj [(''ingredients'', JList scenario_ingredients),
           (''instructions'', JStr scenario_instructions)]"

section \<open>The data model of the specification\<close>

text \<open>
  A recipe is a mapping whose fields \<^verbatim>\<open>category\<close>, \<^verbatim>\<open>glass\<close> and \<^verbatim>\<open>instructions\<close> are
  strings and whose field \<^verbatim>\<open>ingredients\<close> is a sequence of ingredients, every field
  optional; an ingredient is a mapping whose field \<^verbatim>\<open>name\<close>, when present, is a string.
\<close>

definition wf_text :: "(string \<times> json) list \<Rightarrow> string \<Rightarrow> bool" where
  "wf_text d key = (case map_of d key of None \<Rightarrow> True | Some (JStr s) \<Rightarrow> True | Some _ \<Rightarrow> False)"

definition wf_ingredient :: "json \<Rightarrow> bool" where
  "wf_ingredient v = (case v of JObj d \<Rightarrow> wf_text d ''name'' | _ \<Rightarrow> False)"

definition wf_recipe :: "json \<Rightarrow> bool" where
  "wf_recipe v =
     (case v of
        JObj d \<Rightarrow>
          wf_text d ''category'' \<and> wf_text d ''glass'' \<and> wf_text d ''instructions'' \<and>
          (case map_of d ''ingredients'' of
             None \<Rightarrow> True
           | Some (JList items) \<Rightarrow> list_all wf_ingredient items
           | Some _ \<Rightarrow> False)
      | _ \<Rightarrow> False)"

text \<open>The complexity tag as the specification words it.\<close>

definition complexity_level :: "rat \<Rightarrow> string" where
  "complexity_level score =
     (if score < 3 then ''simple'' else if score < 6 then ''intermediate'' else ''complex'')"

definition level_names :: "string list" where
  "level_names = [''simple'', ''intermediate'', ''complex'']"

text \<open>The tags of a recipe before duplicates are removed, from the values that decide them.\<close>

definition tag_list :: "string \<Rightarrow> string \<Rightarrow> string \<Rightarrow> string \<Rightarrow> rat \<Rightarrow> string list" where
  "tag_list category glass spirit instructions score =
     (if category \<noteq> [] then [category] else []) @
     (if glass \<noteq> [] then [glass] else []) @
     (if spirit \<noteq> ''non-alcoholic'' then [spirit] else []) @
     (if str_contains ''shake'' instructions then [''shaken''] else []) @
     (if str_contains ''stir'' instructions then [''stirred''] else []) @
     (if str_contains ''muddle'' instructions then [''muddled''] else []) @
     [complexity_level score]"

text \<open>An ingredient whose amount, when present, is a finite number that is not negative.\<close>

definition amount_nonneg :: "json \<Rightarrow> bool" where
  "amount_nonneg ingredient =
     (case ingredient of
        JObj d \<Rightarrow>
          (case map_of d ''amount'' of
             None \<Rightarrow> True
           | Some (JInt n) \<Rightarrow> 0 \<le> n
           | Some (JFloat (Fin r)) \<Rightarrow> 0 \<le> r
           | Some _ \<Rightarrow> False)
      | _ \<Rightarrow> False)"

text \<open>An ingredient whose amount, when present, is a finite number of magnitude at most \<open>10^300\<close>.\<close>

definition amount_moderate :: "json \<Rightarrow> bool" where
  "amount_moderate ingredient =
     (case ingredient of
        JObj d \<Rightarrow>
          (case map_of d ''amount'' of
             None \<Rightarrow> True
           | Some (JInt n) \<Rightarrow> \<bar>n\<bar> \<le> 10 ^ 300
           | Some (JFloat (Fin r)) \<Rightarrow> \<bar>r\<bar> \<le> 10 ^ 300
           | Some _ \<Rightarrow> False)
      | _ \<Rightarrow> False)"

text \<open>A recipe all of whose ingredients have such an amount.\<close>

definition moderate_amounts :: "json \<Rightarrow> bool" where
  "moderate_amounts v =
     (case v of
        JObj d \<Rightarrow>
          (case map_of d ''ingredients'' of
             None \<Rightarrow> True
           | Some (JList items) \<Rightarrow> list_all amount_moderate items
           | Some _ \<Rightarrow> False)
      | _ \<Rightarrow> False)"

section \<open>A host for the handler\<close>

text \<open>
  A host in which S3 holds one document under every key, both writes succeed and the
  clock stands still; and the event that names no bucket and no partition.
\<close>

definition quiet_env :: "json \<Rightarrow> env" where
  "quiet_env document =
     \<lparr>s3_get_object = (\<lambda>bucket key. Inr document),
      s3_put_object = (\<lambda>bucket key body. None),
      put_item = (\<lambda>table item. None),
      today = ''2024/01/01'',
      isoformat_now = (\<lambda>i. ''2024-01-01T00:00:00'')\<rparr>"

definition default_event :: event where
  "default_event = \<lparr>input_bucket = None, output_bucket = None, date_partition = None\<rparr>"

section \<open>The fields of a record\<close>

definition base_keys :: "string list" where
  "base_keys = [''ingredients'', ''instructions'', ''category'', ''glass'']"

definition derived_keys :: "string list" where
  "derived_keys =
     [''enriched_at'', ''ingredient_count'', ''complexity_score'', ''instruction_word_count'',
      ''estimated_prep_time'', ''is_alcoholic'', ''spirit_type'', ''estimated_calories'',
      ''tags'']"

text \<open>
  The assignments of \<^verbatim>\<open>enrich_single_cocktail\<close>, in their order, as a function of the dict
  it is given and of the clock: what the function writes, apart from where it writes it.
\<close>

definition derived_fields :: "string \<Rightarrow> json \<Rightarrow> error + (string \<times> json) list" where
  "derived_fields now cocktail =
     bindE (py_get cocktail ''ingredients'' (JList [])) (\<lambda>ingredients.
     bindE (py_len ingredients) (\<lambda>n.
     bindE (calculate_complexity_score ingredients) (\<lambda>score.
     bindE (py_get cocktail ''instructions'' (JStr [])) (\<lambda>instructions.
     bindE (py_split instructions) (\<lambda>ws.
     bindE (estimate_prep_time ingredients instructions) (\<lambda>prep.
     bindE (py_iter ingredients) (\<lambda>items.
     bindE (comprehension ingredient_name items) (\<lambda>names.
     bindE (identify_spirit_type ingredients) (\<lambda>spirit.
     bindE (estimate_calories ingredients) (\<lambda>calories.
     bindE (generate_tags cocktail) (\<lambda>tags.
     Inr [(''enriched_at'', JStr now),
          (''ingredient_count'', JInt (int n)),
          (''complexity_score'', JFloat (Fin score)),
          (''instruction_word_count'', JInt (int (length ws))),
          (''estimated_prep_time'', JInt prep),
          (''is_alcoholic'', JBool (str_contains ''rum'' (join '' '' names))),
          (''spirit_type'', JStr spirit),
          (''estimated_calories'', JInt calories),
          (''tags'', JList (map JStr tags))])))))))))))"

text \<open>A dict after a list of assignments.\<close>

definition assign :: "(string \<times> json) list \<Rightarrow> (string \<times> json) list \<Rightarrow> (string \<times> json) list" where
  "assign fs d = foldl (\<lambda>d (k, v). AList.update k v d) d fs"

text \<open>A field of the record that an enrichment returned; nothing when it raised.\<close>

definition result_field :: "error + (store \<times> nat) \<Rightarrow> string \<Rightarrow> json option" where
  "result_field r key =
     (case r of
        Inl e \<Rightarrow> None
      | Inr (h, a) \<Rightarrow> (case load h a of Inr (JObj d) \<Rightarrow> map_of d key | _ \<Rightarrow> None))"

text \<open>The record that the scenario's recipe is enriched to, at a given reading of the clock.\<close>

definition scenario_enriched :: "string \<Rightarrow> json" where
  "scenario_enriched now =
     JObj [(''ingredients'', JList scenario_ingredients),
           (''instructions'', JStr scenario_instructions),
           (''enriched_at'', JStr now),
           (''ingredient_count'', JInt 3),
           (''complexity_score'', JFloat (Fin 2)),
           (''instruction_word_count'', JInt 8),
           (''estimated_prep_time'', JInt 4),
           (''is_alcoholic'', JBool True),
           (''spirit_type'', JStr ''rum''),
           (''estimated_calories'', JInt 241),
           (''tags'', JList [JStr ''rum'', JStr ''shaken'', JStr ''simple''])]"

section \<open>Basic facts\<close>

lemma bindE_Inl [simp]: "bindE (Inl e) f = Inl e"
  by (simp add: bindE_def)

lemma bindE_Inr [simp]: "bindE (Inr x) f = f x"
  by (simp add: bindE_def)

lemma bindE_eq_Inr: "bindE m f = Inr y \<longleftrightarrow> (\<exists>x. m = Inr x \<and> f x = Inr y)"
  by (cases m) simp_all

lemma bindE_assoc: "bindE (bindE m f) g = bindE m (\<lambda>x. bindE (f x) g)"
  by (cases m) simp_all

lemma bindE_cong: "m = m' \<Longrightarrow> (\<And>x. f x = g x) \<Longrightarrow> bindE m f = bindE m' g"
  by (cases m') simp_all

lemma for_each_append:
  "for_each body (xs @ ys) s = bindE (for_each body xs s) (for_each body ys)"
proof (induction xs arbitrary: s)
  case Nil
  show ?case by simp
next
  case (Cons x xs)
  show ?case by (simp add: bindE_assoc Cons.IH cong: bindE_cong)
qed

lemma for_each_invariant:
  assumes "for_each body xs s = Inr s'" and "P s"
    and "\<And>x t t'. x \<in> set xs \<Longrightarrow> P t \<Longrightarrow> body x t = Inr t' \<Longrightarrow> P t'"
  shows "P s'"
  using assms
proof (induction xs arbitrary: s)
  case Nil
  then show ?case by simp
next
  case (Cons x xs)
  from Cons.prems(1) obtain t where t: "body x s = Inr t" and rest: "for_each body xs t = Inr s'"
    by (auto simp: bindE_eq_Inr)
  have "P t" using Cons.prems(2,3) t by auto
  show ?case by (rule Cons.IH [OF rest \<open>P t\<close>]) (use Cons.prems(3) in auto)
qed

lemma comprehension_length:
  "comprehension f xs = Inr ys \<Longrightarrow> length ys = length xs"
  by (induction xs arbitrary: ys) (auto simp: bindE_eq_Inr)

lemma comprehension_Cons:
  "comprehension f (x # xs) = Inr ys \<longleftrightarrow>
     (\<exists>y ys'. f x = Inr y \<and> comprehension f xs = Inr ys' \<and> ys = y # ys')"
  by (auto simp: bindE_eq_Inr)

text \<open>A bonus loop over well-formed ingredients adds the bonus once for each matching name.\<close>

lemma bonus_loop_value:
  "comprehension ingredient_name items = Inr names \<Longrightarrow>
   for_each (bonus_step keywords bonus) items score =
     Inr (score + of_nat (length (filter (any_in keywords) names)) * bonus)"
proof (induction items arbitrary: names score)
  case Nil
  then show ?case by simp
next
  case (Cons item items)
  then obtain name rest where
    n: "ingredient_name item = Inr name" and r: "comprehension ingredient_name items = Inr rest"
    and names: "names = name # rest"
    by (auto simp: bindE_eq_Inr)
  show ?case
    using Cons.IH [OF r] n names by (simp add: bonus_step_def algebra_simps)
qed

lemma bonus_loop_mono:
  assumes "for_each (bonus_step keywords bonus) items score = Inr score'" and "0 \<le> bonus"
  shows "score \<le> score'"
  using assms
proof (induction items arbitrary: score)
  case Nil
  then show ?case by simp
next
  case (Cons item items)
  from Cons.prems(1) obtain t where t: "bonus_step keywords bonus item score = Inr t"
    and rest: "for_each (bonus_step keywords bonus) items t = Inr score'"
    by (auto simp: bindE_eq_Inr)
  have "score \<le> t" using t Cons.prems(2) by (auto simp: bonus_step_def bindE_eq_Inr split: if_splits)
  moreover have "t \<le> score'" using Cons.IH [OF rest Cons.prems(2)] .
  ultimately show ?case by simp
qed

lemma complexity_bounds:
  assumes "calculate_complexity_score ingredients = Inr score"
  shows "0 \<le> score \<and> score \<le> 10"
proof -
  from assms obtain n items s1 s2 where
    l1: "for_each (bonus_step specialty_ingredients 1) items (0 + min (of_nat n * (1 / 2)) 3) = Inr s1"
    and l2: "for_each (bonus_step fresh_indicators (1 / 2)) items s1 = Inr s2"
    and res: "score = min s2 10"
    by (auto simp: calculate_complexity_score_def bindE_eq_Inr)
  have "(0::rat) \<le> 0 + min (of_nat n * (1 / 2)) 3" by simp
  also have "\<dots> \<le> s1" using bonus_loop_mono [OF l1] by simp
  also have "\<dots> \<le> s2" using bonus_loop_mono [OF l2] by simp
  finally show ?thesis using res by simp
qed

lemma complexity_value:
  assumes "comprehension ingredient_name items = Inr names"
  shows "calculate_complexity_score (JList items) =
     Inr (min (min (of_nat (length items) * (1 / 2)) 3
               + of_nat (length (filter (any_in specialty_ingredients) names)) * 1
               + of_nat (length (filter (any_in fresh_indicators) names)) * (1 / 2)) 10)"
  using assms
  by (simp add: calculate_complexity_score_def py_len_def py_iter_def bonus_loop_value)

lemma prep_time_value:
  "estimate_prep_time ingredients (JStr s) =
     Inr (min (3 + (if str_contains ''muddle'' (lower s) then 2 else 0)
                 + (if str_contains ''shake'' (lower s) then 1 else 0)
                 + max 0 (int (length (filter (\<lambda>c. c = CHR ''.'') s))
                          + int (length (filter (\<lambda>c. c = CHR '';'') s)) - 2)) 15)"
  by (simp add: estimate_prep_time_def py_lower_def py_count_def Let_def)

lemma prep_time_bounds:
  assumes "estimate_prep_time ingredients instructions = Inr t"
  shows "3 \<le> t \<and> t \<le> 15"
proof (cases instructions)
  case (JStr s)
  show ?thesis using assms unfolding JStr prep_time_value by auto
qed (use assms in \<open>simp_all add: estimate_prep_time_def py_lower_def\<close>)

section \<open>Rounding\<close>

lemma pow2_powi: "pow2 e = 2 powi e"
  by (simp add: pow2_def power_int_def field_simps)

lemma bit_length_bounds:
  "0 < n \<Longrightarrow> 2 ^ (bit_length n - 1) \<le> n \<and> n < 2 ^ bit_length n"
proof (induction n rule: bit_length.induct)
  case (1 n)
  show ?case
  proof (cases "n = 1")
    case True
    then show ?thesis by simp
  next
    case False
    with "1.prems" have half: "0 < n div 2" by simp
    from "1.IH" half "1.prems" have
      lo: "2 ^ (bit_length (n div 2) - 1) \<le> n div 2" and hi: "n div 2 < 2 ^ bit_length (n div 2)"
      by simp_all
    have pos: "0 < bit_length (n div 2)" using half by simp
    have bl: "bit_length n = Suc (bit_length (n div 2))" using "1.prems" by simp
    have "2 ^ (bit_length n - 1) = 2 * 2 ^ (bit_length (n div 2) - 1)"
      using pos by (simp add: bl power_Suc [symmetric] del: power_Suc bit_length.simps)
    also have "\<dots> \<le> 2 * (n div 2)" using lo by simp
    also have "\<dots> \<le> n" by simp
    finally have a: "2 ^ (bit_length n - 1) \<le> n" .
    have "n < 2 * (n div 2) + 2" by simp
    also have "\<dots> \<le> 2 * 2 ^ bit_length (n div 2)" using hi by simp
    also have "\<dots> = 2 ^ bit_length n" by (simp add: bl del: bit_length.simps)
    finally show ?thesis using a by simp
  qed
qed

lemma ilog2_lower:
  assumes "x \<noteq> 0"
  shows "pow2 (ilog2 x) \<le> \<bar>x\<bar>"
proof -
  obtain n d where q: "quotient_of \<bar>x\<bar> = (n, d)" by (cases "quotient_of \<bar>x\<bar>")
  have d: "0 < d" using q by (rule quotient_of_denom_pos)
  have x: "\<bar>x\<bar> = of_int n / of_int d" using q by (rule quotient_of_div)
  have "0 < \<bar>x\<bar>" using assms by simp
  then have n: "0 < n" using d unfolding x by (simp add: zero_less_divide_iff)
  define e where "e = int (bit_length n) - int (bit_length d)"
  show ?thesis
  proof (cases "pow2 e \<le> \<bar>x\<bar>")
    case True
    then show ?thesis by (simp add: ilog2_def q e_def)
  next
    case False
    have pn: "0 < bit_length n" using n by simp
    have "(2::rat) powi (int (bit_length n) - 1) = 2 ^ (bit_length n - 1)"
      using pn by (simp add: power_int_def of_nat_diff nat_diff_distrib')
    also have "\<dots> \<le> of_int n"
      using bit_length_bounds [OF n] by (metis of_int_le_iff of_int_numeral of_int_power)
    finally have lo: "(2::rat) powi (int (bit_length n) - 1) \<le> of_int n" .
    have "(of_int d :: rat) \<le> 2 ^ bit_length d"
      using bit_length_bounds [OF d] by (metis less_imp_le of_int_le_iff of_int_numeral of_int_power)
    then have hi: "(of_int d :: rat) \<le> 2 powi int (bit_length d)" by simp
    have "(2::rat) powi (e - 1) = 2 powi (int (bit_length n) - 1) / 2 powi int (bit_length d)"
      unfolding e_def by (simp add: power_int_diff)
    also have "\<dots> \<le> of_int n / 2 powi int (bit_length d)"
      using lo by (simp add: divide_right_mono)
    also have "\<dots> \<le> of_int n / of_int d"
      using hi d n by (simp add: frac_le)
    finally have "pow2 (e - 1) \<le> \<bar>x\<bar>" by (simp add: pow2_powi x)
    then show ?thesis using False by (simp add: ilog2_def q e_def)
  qed
qed

lemma ilog2_less:
  assumes "x \<noteq> 0" and "\<bar>x\<bar> < pow2 b"
  shows "ilog2 x < b"
proof (rule ccontr)
  assume "\<not> ilog2 x < b"
  then have "b \<le> ilog2 x" by simp
  then have "(2::rat) powi b \<le> 2 powi ilog2 x" by (rule power_int_increasing) simp
  with ilog2_lower [OF assms(1)] assms(2) show False by (simp add: pow2_powi)
qed

lemma round64_finite:
  assumes "\<bar>x\<bar> < pow2 1023"
  shows "\<exists>r. round64 x = Fin r"
proof (cases "x = 0")
  case True
  then show ?thesis by (simp add: round64_def)
next
  case False
  from ilog2_less [OF False assms] have "ilog2 x < 1023" .
  then show ?thesis using False by (auto simp: round64_def Let_def max_def)
qed

lemma round_half_even_near: "\<bar>of_int (round_half_even y) - y\<bar> \<le> 1"
proof -
  have lo: "of_int \<lfloor>y\<rfloor> \<le> y" and hi: "y < of_int \<lfloor>y\<rfloor> + 1" by linarith+
  have "round_half_even y = \<lfloor>y\<rfloor> \<or> round_half_even y = \<lfloor>y\<rfloor> + 1"
    by (simp add: round_half_even_def Let_def)
  then show ?thesis
  proof
    assume "round_half_even y = \<lfloor>y\<rfloor>"
    then show ?thesis using lo hi by (simp add: abs_le_iff)
  next
    assume "round_half_even y = \<lfloor>y\<rfloor> + 1"
    then show ?thesis using lo hi by (simp add: abs_le_iff)
  qed
qed

text \<open>Rounding at most doubles a magnitude, up to the smallest subnormal step.\<close>

lemma round64_magnitude:
  assumes "round64 x = Fin r"
  shows "\<bar>r\<bar> \<le> 2 * \<bar>x\<bar> + 1"
proof (cases "x = 0")
  case True
  with assms show ?thesis by (simp add: round64_def)
next
  case False
  define e where "e = max (ilog2 x) (- 1022)"
  define q where "q = pow2 (e - 52)"
  define m where "m = round_half_even (x / q)"
  have q: "0 < q" unfolding q_def by (simp add: pow2_powi)
  have r: "r = of_int m * q"
    using assms False by (simp add: round64_def Let_def e_def q_def m_def split: if_splits)
  have "\<bar>of_int m - x / q\<bar> \<le> 1" unfolding m_def by (rule round_half_even_near)
  then have "\<bar>of_int m - x / q\<bar> * q \<le> 1 * q" using q by (simp only: mult_le_cancel_right) simp
  moreover have "\<bar>of_int m - x / q\<bar> * q = \<bar>of_int m * q - x\<bar>"
  proof -
    have "(of_int m - x / q) * q = of_int m * q - x" using q by (simp add: field_simps)
    then have "\<bar>of_int m * q - x\<bar> = \<bar>of_int m - x / q\<bar> * \<bar>q\<bar>"
      by (simp only: abs_mult [symmetric])
    then show ?thesis using q by simp
  qed
  ultimately have near: "\<bar>r - x\<bar> \<le> q" by (simp add: r)
  have "q \<le> \<bar>x\<bar> + 1"
  proof (cases "ilog2 x \<le> - 1022")
    case True
    then have "e - 52 \<le> 0" by (simp add: e_def)
    then have "(2::rat) powi (e - 52) \<le> 2 powi 0" by (rule power_int_increasing) simp
    then show ?thesis by (simp add: q_def pow2_powi)
  next
    case False
    then have "e = ilog2 x" by (simp add: e_def)
    then have "(2::rat) powi (e - 52) \<le> 2 powi ilog2 x"
      by (intro power_int_increasing) simp_all
    also have "\<dots> \<le> \<bar>x\<bar>" using ilog2_lower [OF \<open>x \<noteq> 0\<close>] by (simp add: pow2_powi)
    finally show ?thesis by (simp add: q_def pow2_powi)
  qed
  with near show ?thesis by linarith
qed

lemma round64_zero [simp]: "round64 0 = Fin 0"
  by (simp add: round64_def)

lemma pow2_pos: "0 < pow2 e"
  by (simp add: pow2_def)

lemma round_half_even_nonneg: "0 \<le> x \<Longrightarrow> 0 \<le> round_half_even x"
  by (auto simp: round_half_even_def Let_def)

lemma round64_nonneg:
  assumes "0 \<le> x"
  shows "round64 x = PInf \<or> (\<exists>r. round64 x = Fin r \<and> 0 \<le> r)"
proof (cases "x = 0")
  case True
  then show ?thesis by simp
next
  case False
  with assms have pos: "0 < x" by simp
  define q where "q = pow2 (max (ilog2 x) (- 1022) - 52)"
  have "0 \<le> x / q" using pos pow2_pos [of "max (ilog2 x) (- 1022) - 52"] by (simp add: q_def)
  then have "0 \<le> round_half_even (x / q)" by (rule round_half_even_nonneg)
  then have "(0::rat) \<le> of_int (round_half_even (x / q)) * q"
    using pow2_pos [of "max (ilog2 x) (- 1022) - 52"] by (simp add: q_def)
  then show ?thesis
    using pos False by (simp add: round64_def Let_def q_def)
qed


section \<open>Ranges of the complexity score and of the preparation time\<close>

text \<open>
  Claim C5. Whatever the ingredients are, a complexity score that is returned lies between
  0 and 10, and whatever the instructions are, a preparation time that is returned lies
  between 3 and 15. For a list of ingredients whose names can be read the score is
  returned, and it is \<open>min (0.5 \<times> count) 3\<close> plus 1 for each name with a specialty keyword
  plus one half for each name with a fresh keyword, capped at 10; for a string of
  instructions the time is returned, and it is 3, plus 2 for \<^verbatim>\<open>muddle\<close>, plus 1 for
  \<^verbatim>\<open>shake\<close>, plus \<open>max 0 (steps - 2)\<close>, capped at 15.
\<close>

theorem complexity_and_prep_time_ranges:
  "(\<forall>score. calculate_complexity_score ingredients = Inr score \<longrightarrow> 0 \<le> score \<and> score \<le> 10) \<and>
   (\<forall>t. estimate_prep_time ingredients instructions = Inr t \<longrightarrow> 3 \<le> t \<and> t \<le> 15) \<and>
   (\<forall>names. comprehension ingredient_name items = Inr names \<longrightarrow>
      calculate_complexity_score (JList items) =
        Inr (min (min (of_nat (length items) * (1 / 2)) 3
                  + of_nat (length (filter (any_in specialty_ingredients) names)) * 1
                  + of_nat (length (filter (any_in fresh_indicators) names)) * (1 / 2)) 10)) \<and>
   estimate_prep_time ingredients (JStr s) =
     Inr (min (3 + (if str_contains ''muddle'' (lower s) then 2 else 0)
                 + (if str_contains ''shake'' (lower s) then 1 else 0)
                 + max 0 (int (length (filter (\<lambda>c. c = CHR ''.'') s))
                          + int (length (filter (\<lambda>c. c = CHR '';'') s)) - 2)) 15)"
proof -
  have a: "\<forall>score. calculate_complexity_score ingredients = Inr score \<longrightarrow> 0 \<le> score \<and> score \<le> 10"
    using complexity_bounds by blast
  have b: "\<forall>t. estimate_prep_time ingredients instructions = Inr t \<longrightarrow> 3 \<le> t \<and> t \<le> 15"
    using prep_time_bounds by blast
  show ?thesis
    by (intro conjI a b allI impI complexity_value prep_time_value)
qed

theorem complexity_and_prep_time_ranges_witness:
  "calculate_complexity_score (JList scenario_ingredients) = Inr 2 \<and> (0::rat) \<le> 2 \<and> (2::rat) \<le> 10 \<and>
   estimate_prep_time (JList scenario_ingredients) (JStr scenario_instructions) = Inr 4 \<and>
   (3::int) \<le> 4 \<and> (4::int) \<le> 15 \<and>
   comprehension ingredient_name scenario_ingredients =
     Inr [''light rum'', ''lime juice'', ''simple syrup'']"
proof -
  have c: "calculate_complexity_score (JList scenario_ingredients) = Inr 2"
    by code_simp
  have p: "estimate_prep_time (JList scenario_ingredients) (JStr scenario_instructions) = Inr 4"
    by code_simp
  have n: "comprehension ingredient_name scenario_ingredients =
      Inr [''light rum'', ''lime juice'', ''simple syrup'']"
    by code_simp
  note ranges =
    complexity_and_prep_time_ranges [of "JList scenario_ingredients"
      "JStr scenario_instructions" scenario_ingredients scenario_instructions]
  have r1: "(0::rat) \<le> 2 \<and> (2::rat) \<le> 10"
    using ranges [THEN conjunct1, THEN spec, THEN mp, OF c] .
  have r2: "(3::int) \<le> 4 \<and> (4::int) \<le> 15"
    using ranges [THEN conjunct2, THEN conjunct1, THEN spec, THEN mp, OF p] .
  show ?thesis
    using r1 r2 by (intro conjI c p n) simp_all
qed

section \<open>Spirit type\<close>

lemma scan_ingredients_value:
  "comprehension ingredient_name items = Inr names \<Longrightarrow>
   scan_ingredients keywords items = Inr (list_ex (any_in keywords) names)"
proof (induction items arbitrary: names)
  case Nil
  then show ?case by simp
next
  case (Cons item items)
  then obtain name rest where
    n: "ingredient_name item = Inr name" and r: "comprehension ingredient_name items = Inr rest"
    and names: "names = name # rest"
    by (auto simp: bindE_eq_Inr)
  show ?case using Cons.IH [OF r] n names by simp
qed

lemma spirit_loop_value:
  assumes "comprehension ingredient_name items = Inr names"
  shows "spirit_loop table items =
     Inr (case find (\<lambda>(spirit, keywords). list_ex (any_in keywords) names) table of
            None \<Rightarrow> ''non-alcoholic''
          | Some (spirit, keywords) \<Rightarrow> spirit)"
proof (induction table)
  case Nil
  show ?case by simp
next
  case (Cons entry table)
  obtain spirit kws where entry: "entry = (spirit, kws)" by (cases entry)
  show ?case
    using Cons.IH by (simp add: entry scan_ingredients_value [OF assms])
qed

lemma spirit_type_value:
  assumes "comprehension ingredient_name items = Inr names"
  shows "identify_spirit_type (JList items) = Inr (first_matching_spirit names)"
  by (simp add: identify_spirit_type_def py_iter_def first_matching_spirit_def
      spirit_loop_value [OF assms])

text \<open>
  Claim C9. For a list of ingredients whose names can be read, the spirit type is the first
  key of the keyword map, taken in the order vodka, gin, rum, tequila, whiskey, brandy,
  for which some lowercased ingredient name contains one of the key's keywords, and
  \<^verbatim>\<open>non-alcoholic\<close> when no key has one.
\<close>

theorem identify_spirit_type_first_match:
  assumes "comprehension ingredient_name items = Inr names"
  shows "identify_spirit_type (JList items) = Inr (first_matching_spirit names)"
  using assms by (rule spirit_type_value)

theorem identify_spirit_type_first_match_witness:
  "comprehension ingredient_name
     [JObj [(''name'', JStr ''Dark Rum'')], JObj [(''name'', JStr ''Gin'')],
      JObj [(''name'', JStr ''Vodka'')]] = Inr [''dark rum'', ''gin'', ''vodka''] \<and>
   identify_spirit_type
     (JList [JObj [(''name'', JStr ''Dark Rum'')], JObj [(''name'', JStr ''Gin'')],
             JObj [(''name'', JStr ''Vodka'')]]) = Inr ''vodka''"
proof -
  have n: "comprehension ingredient_name
     [JObj [(''name'', JStr ''Dark Rum'')], JObj [(''name'', JStr ''Gin'')],
      JObj [(''name'', JStr ''Vodka'')]] = Inr [''dark rum'', ''gin'', ''vodka'']"
    by code_simp
  have v: "first_matching_spirit [''dark rum'', ''gin'', ''vodka''] = ''vodka''"
    by code_simp
  show ?thesis
    using n v identify_spirit_type_first_match [OF n] by simp
qed

section \<open>Tags\<close>

lemma wf_ingredient_name:
  "wf_ingredient v \<Longrightarrow> \<exists>name. ingredient_name v = Inr name"
  by (auto simp: wf_ingredient_def wf_text_def ingredient_name_def py_get_def py_lower_def
      split: json.splits option.splits)

lemma wf_ingredients_names:
  "list_all wf_ingredient items \<Longrightarrow> \<exists>names. comprehension ingredient_name items = Inr names"
proof (induction items)
  case Nil
  show ?case by simp
next
  case (Cons item items)
  then obtain name names where "ingredient_name item = Inr name"
    and "comprehension ingredient_name items = Inr names"
    using wf_ingredient_name by fastforce
  then show ?case by simp
qed

lemma wf_text_lower:
  "wf_text d key \<Longrightarrow> \<exists>s. bindE (py_get (JObj d) key (JStr [])) py_lower = Inr s"
  by (auto simp: wf_text_def py_get_def py_lower_def split: json.splits option.splits)

lemma spirit_loop_range:
  "spirit_loop table items = Inr s \<Longrightarrow> s \<in> fst ` set table \<or> s = ''non-alcoholic''"
proof (induction table)
  case Nil
  then show ?case by simp
next
  case (Cons entry table)
  obtain spirit kws where entry: "entry = (spirit, kws)" by (cases entry)
  show ?case
    using Cons by (auto simp: entry bindE_eq_Inr split: if_splits)
qed

lemma spirit_not_level:
  assumes "identify_spirit_type ingredients = Inr s"
  shows "s \<notin> set level_names"
proof -
  from assms obtain items where "spirit_loop spirit_map items = Inr s"
    by (auto simp: identify_spirit_type_def bindE_eq_Inr)
  from spirit_loop_range [OF this] show ?thesis
    by (auto simp: spirit_map_def level_names_def)
qed

lemma complexity_level_name: "complexity_level score \<in> set level_names"
  by (simp add: complexity_level_def level_names_def)


lemma if_snoc: "(if b then xs @ [x] else xs) = xs @ (if b then [x] else [])"
  by simp

lemma if_append_distrib:
  "(if a then xs @ ys else if b then xs @ zs else xs @ ws) =
     xs @ (if a then ys else if b then zs else ws)"
  by simp

lemma level_singleton:
  "(if s < 3 then [''simple''] else if s < 6 then [''intermediate''] else [''complex'']) =
     [complexity_level s]"
  by (simp add: complexity_level_def)

lemma generate_tags_alt:
  "generate_tags cocktail =
     bindE (bindE (py_get cocktail ''category'' (JStr [])) py_lower) (\<lambda>category.
     bindE (bindE (py_get cocktail ''glass'' (JStr [])) py_lower) (\<lambda>glass.
     bindE (py_get cocktail ''ingredients'' (JList [])) (\<lambda>ingredients.
     bindE (identify_spirit_type ingredients) (\<lambda>spirit.
     bindE (bindE (py_get cocktail ''instructions'' (JStr [])) py_lower) (\<lambda>instructions.
     bindE (calculate_complexity_score ingredients) (\<lambda>score.
     Inr (remdups (tag_list category glass spirit instructions score))))))))"
  unfolding generate_tags_def tag_list_def
  by (simp add: if_snoc if_append_distrib level_singleton Let_def)

lemma generate_tags_value:
  assumes "generate_tags cocktail = Inr tags"
  shows "\<exists>category glass ingredients spirit instructions score.
     bindE (py_get cocktail ''category'' (JStr [])) py_lower = Inr category \<and>
     bindE (py_get cocktail ''glass'' (JStr [])) py_lower = Inr glass \<and>
     py_get cocktail ''ingredients'' (JList []) = Inr ingredients \<and>
     identify_spirit_type ingredients = Inr spirit \<and>
     bindE (py_get cocktail ''instructions'' (JStr [])) py_lower = Inr instructions \<and>
     calculate_complexity_score ingredients = Inr score \<and>
     tags = remdups (tag_list category glass spirit instructions score)"
  using assms unfolding generate_tags_alt
  by (simp only: bindE_eq_Inr [where m = "bindE (py_get cocktail ''category'' (JStr [])) py_lower"]
      bindE_eq_Inr [where m = "bindE (py_get cocktail ''glass'' (JStr [])) py_lower"]
      bindE_eq_Inr [where m = "bindE (py_get cocktail ''instructions'' (JStr [])) py_lower"]
      bindE_eq_Inr [where m = "py_get cocktail ''ingredients'' (JList [])"]
      bindE_eq_Inr [where m = "identify_spirit_type _"]
      bindE_eq_Inr [where m = "calculate_complexity_score _"]) blast

lemma generate_tags_total:
  assumes "wf_recipe cocktail"
  shows "\<exists>tags. generate_tags cocktail = Inr tags"
proof -
  from assms obtain d where d: "cocktail = JObj d"
    and wc: "wf_text d ''category''" and wg: "wf_text d ''glass''"
    and wi: "wf_text d ''instructions''"
    and ws: "case map_of d ''ingredients'' of None \<Rightarrow> True
             | Some (JList items) \<Rightarrow> list_all wf_ingredient items | Some _ \<Rightarrow> False"
    by (auto simp: wf_recipe_def split: json.splits)
  from ws obtain items where items: "py_get cocktail ''ingredients'' (JList []) = Inr (JList items)"
    and wf: "list_all wf_ingredient items"
    by (auto simp: d py_get_def split: option.splits json.splits)
  from wf_ingredients_names [OF wf] obtain names where
    names: "comprehension ingredient_name items = Inr names" by blast
  from wf_text_lower [OF wc] obtain c where
    c: "bindE (py_get cocktail ''category'' (JStr [])) py_lower = Inr c" unfolding d by blast
  from wf_text_lower [OF wg] obtain g where
    g: "bindE (py_get cocktail ''glass'' (JStr [])) py_lower = Inr g" unfolding d by blast
  from wf_text_lower [OF wi] obtain i where
    i: "bindE (py_get cocktail ''instructions'' (JStr [])) py_lower = Inr i" unfolding d by blast
  show ?thesis
    unfolding generate_tags_alt
    by (simp only: c g i items bindE_Inr spirit_type_value [OF names]
        complexity_value [OF names]) blast
qed

lemma tag_list_levels:
  assumes "spirit \<notin> set level_names"
  shows "set (tag_list category glass spirit instructions score) \<inter> set level_names
           \<subseteq> {complexity_level score, category, glass}"
    and "complexity_level score \<in> set (tag_list category glass spirit instructions score)"
  using assms by (auto simp: tag_list_def level_names_def split: if_splits)

lemma generate_tags_distinct: "generate_tags cocktail = Inr tags \<Longrightarrow> distinct tags"
  using generate_tags_value by fastforce

text \<open>
  Claim C3, as the code has it. The tags of a well-formed recipe are returned. Tags that
  are returned have no duplicates and contain the level of the recomputed complexity score:
  \<^verbatim>\<open>simple\<close> below 3, \<^verbatim>\<open>intermediate\<close> below 6, \<^verbatim>\<open>complex\<close> otherwise. Any other of the
  three level names among them is the lowercased category or the lowercased glass, so the
  level of the score is the only one when neither of the two is a level name.
\<close>

theorem generate_tags_level:
  "(wf_recipe cocktail \<longrightarrow> (\<exists>tags. generate_tags cocktail = Inr tags)) \<and>
   (\<forall>tags. generate_tags cocktail = Inr tags \<longrightarrow>
      distinct tags \<and>
      (\<exists>category glass ingredients score.
         bindE (py_get cocktail ''category'' (JStr [])) py_lower = Inr category \<and>
         bindE (py_get cocktail ''glass'' (JStr [])) py_lower = Inr glass \<and>
         py_get cocktail ''ingredients'' (JList []) = Inr ingredients \<and>
         calculate_complexity_score ingredients = Inr score \<and>
         complexity_level score \<in> set tags \<and>
         set tags \<inter> set level_names \<subseteq> {complexity_level score, category, glass} \<and>
         (category \<notin> set level_names \<and> glass \<notin> set level_names \<longrightarrow>
            set tags \<inter> set level_names = {complexity_level score})))"
proof (intro conjI allI impI)
  assume "wf_recipe cocktail"
  then show "\<exists>tags. generate_tags cocktail = Inr tags" by (rule generate_tags_total)
next
  fix tags assume g: "generate_tags cocktail = Inr tags"
  then show "distinct tags" by (rule generate_tags_distinct)
  from generate_tags_value [OF g] obtain category glass ingredients spirit instructions score
    where c: "bindE (py_get cocktail ''category'' (JStr [])) py_lower = Inr category"
      and gl: "bindE (py_get cocktail ''glass'' (JStr [])) py_lower = Inr glass"
      and i: "py_get cocktail ''ingredients'' (JList []) = Inr ingredients"
      and s: "identify_spirit_type ingredients = Inr spirit"
      and k: "calculate_complexity_score ingredients = Inr score"
      and tags: "tags = remdups (tag_list category glass spirit instructions score)"
    by blast
  note lv = tag_list_levels [OF spirit_not_level [OF s], where category = category
      and glass = glass and instructions = instructions and score = score]
  have m: "complexity_level score \<in> set tags" using lv(2) by (simp add: tags)
  have sub: "set tags \<inter> set level_names \<subseteq> {complexity_level score, category, glass}"
    using lv(1) by (simp add: tags)
  have one: "category \<notin> set level_names \<and> glass \<notin> set level_names \<longrightarrow>
      set tags \<inter> set level_names = {complexity_level score}"
    using sub m complexity_level_name [of score] by blast
  show "\<exists>category glass ingredients score.
         bindE (py_get cocktail ''category'' (JStr [])) py_lower = Inr category \<and>
         bindE (py_get cocktail ''glass'' (JStr [])) py_lower = Inr glass \<and>
         py_get cocktail ''ingredients'' (JList []) = Inr ingredients \<and>
         calculate_complexity_score ingredients = Inr score \<and>
         complexity_level score \<in> set tags \<and>
         set tags \<inter> set level_names \<subseteq> {complexity_level score, category, glass} \<and>
         (category \<notin> set level_names \<and> glass \<notin> set level_names \<longrightarrow>
            set tags \<inter> set level_names = {complexity_level score})"
    using c gl i k m sub one by blast
qed

theorem generate_tags_level_witness:
  "wf_recipe scenario_recipe \<and>
   generate_tags scenario_recipe = Inr [''rum'', ''shaken'', ''simple''] \<and>
   distinct [''rum'', ''shaken'', ''simple'']"
proof -
  have w: "wf_recipe scenario_recipe" by code_simp
  have g: "generate_tags scenario_recipe = Inr [''rum'', ''shaken'', ''simple'']" by code_simp
  note t = generate_tags_level [of scenario_recipe]
  have "\<exists>tags. generate_tags scenario_recipe = Inr tags"
    using t [THEN conjunct1, THEN mp, OF w] .
  have d: "distinct [''rum'', ''shaken'', ''simple'']"
    using t [THEN conjunct2, THEN spec, THEN mp, OF g, THEN conjunct1] .
  show ?thesis using w g d by (intro conjI)
qed

text \<open>
  Claim C3 as it is written fails: a recipe of category \<^verbatim>\<open>Complex\<close> with no ingredients has
  the tag \<^verbatim>\<open>complex\<close> of its category and the tag \<^verbatim>\<open>simple\<close> of its score, two of the three
  level names.
\<close>

theorem generate_tags_two_levels_counterexample:
  "generate_tags (JObj [(''category'', JStr ''Complex'')]) = Inr [''complex'', ''simple''] \<and>
   ''complex'' \<in> set level_names \<and> ''simple'' \<in> set level_names"
  by code_simp

section \<open>Calories\<close>

lemma py_int_nonneg:
  assumes "f = PInf \<or> (\<exists>r. f = Fin r \<and> 0 \<le> r)" and "py_int f = Inr c"
  shows "0 \<le> c"
  using assms by (auto simp: py_int_def)

lemma table_scan_nonneg:
  assumes "\<forall>(key, calories) \<in> set table. 0 \<le> calories" and "0 \<le> r"
    and "table_scan table name (Fin r) = Inr c"
  shows "0 \<le> c"
  using assms
proof (induction table)
  case Nil
  then show ?case by simp
next
  case (Cons entry table)
  obtain key calories where entry: "entry = (key, calories)" by (cases entry)
  show ?case
  proof (cases "str_contains key name")
    case True
    have "0 \<le> calories" using Cons.prems(1) by (simp add: entry)
    then have "(0::rat) \<le> of_int calories * r" using Cons.prems(2) by simp
    from round64_nonneg [OF this] Cons.prems(3) True show ?thesis
      using py_int_nonneg by (simp add: entry int_times_float_def)
  next
    case False
    then show ?thesis using Cons by (simp add: entry)
  qed
qed

lemma table_scan_zero: "table_scan table name (Fin 0) = Inr 0"
proof (induction table)
  case Nil
  show ?case by simp
next
  case (Cons entry table)
  obtain key calories where entry: "entry = (key, calories)" by (cases entry)
  show ?case using Cons by (simp add: entry int_times_float_def py_int_def)
qed

lemma calorie_map_nonneg: "\<forall>(key, calories) \<in> set calorie_map. 0 \<le> calories"
  by (simp add: calorie_map_def)

lemma py_float_int_nonneg:
  assumes "0 \<le> n" and "py_float (JInt n) = Inr f"
  shows "\<exists>r. f = Fin r \<and> 0 \<le> r"
proof -
  have "(0::rat) \<le> of_int n" using assms(1) by simp
  from round64_nonneg [OF this] assms(2) show ?thesis
    by (auto simp: py_float_def)
qed

lemma ingredient_calories_nonneg:
  assumes "amount_nonneg ingredient" and "ingredient_calories ingredient = Inr c"
  shows "0 \<le> c"
proof -
  from assms(1) obtain d where d: "ingredient = JObj d"
    by (auto simp: amount_nonneg_def split: json.splits)
  from assms(2) obtain name amount where
    a: "bindE (py_get ingredient ''amount'' (JInt 0)) py_float = Inr amount"
    and t: "table_scan calorie_map name amount = Inr c"
    by (auto simp: ingredient_calories_def bindE_eq_Inr)
  have "\<exists>r. amount = Fin r \<and> 0 \<le> r"
  proof (cases "map_of d ''amount''")
    case None
    then show ?thesis using a by (auto simp: d py_get_def py_float_def)
  next
    case (Some v)
    show ?thesis
    proof (cases v)
      case (JInt n)
      then show ?thesis
        using assms(1) a Some py_float_int_nonneg [of n amount]
        by (simp add: d amount_nonneg_def py_get_def)
    next
      case (JFloat f)
      then show ?thesis
        using assms(1) a Some
        by (auto simp: d amount_nonneg_def py_get_def py_float_def split: pyfloat.splits)
    qed (use assms(1) Some in \<open>simp_all add: d amount_nonneg_def\<close>)
  qed
  then obtain r where "amount = Fin r" and "0 \<le> r" by blast
  with t show ?thesis using table_scan_nonneg [OF calorie_map_nonneg] by blast
qed

lemma estimate_calories_nonneg_aux:
  assumes "list_all amount_nonneg items" and "estimate_calories (JList items) = Inr c"
  shows "0 \<le> c"
proof -
  let ?body = "\<lambda>ingredient total_calories.
     bindE (ingredient_calories ingredient) (\<lambda>c. Inr (total_calories + c))"
  from assms(2) have run: "for_each ?body items 0 = Inr c"
    by (simp add: estimate_calories_def py_iter_def)
  show ?thesis
  proof (rule for_each_invariant [OF run, where P = "\<lambda>t. 0 \<le> t"])
    show "(0::int) \<le> 0" by simp
  next
    fix x t t'
    assume x: "x \<in> set items" and t: "0 \<le> t" and step: "?body x t = Inr t'"
    from step obtain k where k: "ingredient_calories x = Inr k" and t': "t' = t + k"
      by (auto simp: bindE_eq_Inr)
    have "amount_nonneg x" using assms(1) x by (simp add: list_all_iff)
    from ingredient_calories_nonneg [OF this k] t t' show "0 \<le> t'" by simp
  qed
qed

lemma absent_amount_calories:
  assumes "ingredient_name (JObj d) = Inr name" and "map_of d ''amount'' = None"
  shows "ingredient_calories (JObj d) = Inr 0"
  using assms by (simp add: ingredient_calories_def py_get_def py_float_def table_scan_zero)

lemma rejected_amount_calories:
  assumes "ingredient_name (JObj d) = Inr name" and "map_of d ''amount'' = Some v"
    and "py_float v = Inl e"
  shows "ingredient_calories (JObj d) = Inl e"
  using assms by (simp add: ingredient_calories_def py_get_def)

lemma for_each_Cons_fun:
  "for_each body (x # xs) = (\<lambda>s. bindE (body x s) (for_each body xs))"
  by (rule ext) simp

lemma estimate_calories_split:
  "estimate_calories (JList (pre @ x # post)) =
     bindE (for_each (\<lambda>ingredient total_calories.
              bindE (ingredient_calories ingredient) (\<lambda>c. Inr (total_calories + c))) pre 0)
       (\<lambda>total. bindE (ingredient_calories x) (\<lambda>c.
          for_each (\<lambda>ingredient total_calories.
              bindE (ingredient_calories ingredient) (\<lambda>c. Inr (total_calories + c)))
            post (total + c)))"
  by (simp add: estimate_calories_def py_iter_def for_each_append for_each_Cons_fun bindE_assoc)

lemma estimate_calories_skip:
  assumes "ingredient_calories x = Inr 0"
  shows "estimate_calories (JList (pre @ x # post)) = estimate_calories (JList (pre @ post))"
  unfolding estimate_calories_split
  by (simp add: assms estimate_calories_def py_iter_def for_each_append)

lemma estimate_calories_raises:
  assumes "ingredient_calories x = Inl e"
  shows "\<exists>e'. estimate_calories (JList (pre @ x # post)) = Inl e'"
  unfolding estimate_calories_split
  by (cases "for_each (\<lambda>ingredient total_calories.
              bindE (ingredient_calories ingredient) (\<lambda>c. Inr (total_calories + c))) pre 0")
     (simp_all add: assms)

lemma moderate_product_finite:
  assumes "\<bar>c\<bar> \<le> 100" and "\<bar>r\<bar> \<le> 2 * 10 ^ 300 + 1"
  shows "\<exists>k. py_int (int_times_float c (Fin r)) = Inr k"
proof -
  have "\<bar>of_int c * r\<bar> = \<bar>of_int c\<bar> * \<bar>r\<bar>" by (rule abs_mult)
  also have "\<dots> \<le> 100 * (2 * 10 ^ 300 + 1)"
    using assms by (intro mult_mono) simp_all
  also have "\<dots> < pow2 1023" by (simp add: pow2_def)
  finally obtain v where "round64 (of_int c * r) = Fin v" using round64_finite by blast
  then show ?thesis by (simp add: int_times_float_def py_int_def)
qed

lemma table_scan_total:
  assumes "\<forall>(key, calories) \<in> set table. \<bar>calories\<bar> \<le> 100" and "\<bar>r\<bar> \<le> 2 * 10 ^ 300 + 1"
  shows "\<exists>k. table_scan table name (Fin r) = Inr k"
  using assms(1)
proof (induction table)
  case Nil
  show ?case by simp
next
  case (Cons entry table)
  obtain key calories where entry: "entry = (key, calories)" by (cases entry)
  have "\<bar>calories\<bar> \<le> 100" using Cons.prems by (simp add: entry)
  from moderate_product_finite [OF this assms(2)] Cons show ?case by (auto simp: entry)
qed

lemma calorie_map_small: "\<forall>(key, calories) \<in> set calorie_map. \<bar>calories\<bar> \<le> 100"
  by (simp add: calorie_map_def)

lemma moderate_amount_float:
  assumes "amount_moderate (JObj d)"
  shows "\<exists>r. bindE (py_get (JObj d) ''amount'' (JInt 0)) py_float = Inr (Fin r) \<and>
           \<bar>r\<bar> \<le> 2 * 10 ^ 300 + 1"
proof (cases "map_of d ''amount''")
  case None
  then show ?thesis by (simp add: py_get_def py_float_def)
next
  case (Some v)
  show ?thesis
  proof (cases v)
    case (JInt n)
    with assms Some have n: "\<bar>n\<bar> \<le> 10 ^ 300" by (simp add: amount_moderate_def)
    then have bound: "\<bar>of_int n :: rat\<bar> \<le> 10 ^ 300"
      by (metis of_int_abs of_int_le_iff of_int_numeral of_int_power)
    also have "\<dots> < pow2 1023" by (simp add: pow2_def)
    finally obtain r where r: "round64 (of_int n) = Fin r" using round64_finite by blast
    from round64_magnitude [OF r] bound have "\<bar>r\<bar> \<le> 2 * 10 ^ 300 + 1" by linarith
    then show ?thesis using Some JInt r by (simp add: py_get_def py_float_def)
  next
    case (JFloat f)
    with assms Some obtain r where "f = Fin r" and "\<bar>r\<bar> \<le> 10 ^ 300"
      by (cases f) (simp_all add: amount_moderate_def)
    then show ?thesis using Some JFloat by (simp add: py_get_def py_float_def)
  qed (use assms Some in \<open>simp_all add: amount_moderate_def\<close>)
qed

lemma ingredient_calories_total:
  assumes "wf_ingredient ingredient" and "amount_moderate ingredient"
  shows "\<exists>k. ingredient_calories ingredient = Inr k"
proof -
  from assms(2) obtain d where d: "ingredient = JObj d"
    by (auto simp: amount_moderate_def split: json.splits)
  from wf_ingredient_name [OF assms(1)] obtain name where
    name: "ingredient_name ingredient = Inr name" by blast
  from moderate_amount_float [OF assms(2) [unfolded d]] obtain r where
    r: "bindE (py_get ingredient ''amount'' (JInt 0)) py_float = Inr (Fin r)"
    and bound: "\<bar>r\<bar> \<le> 2 * 10 ^ 300 + 1"
    unfolding d by blast
  from table_scan_total [OF calorie_map_small bound, of name] show ?thesis
    by (simp add: ingredient_calories_def name r)
qed

lemma for_each_total:
  assumes "\<And>x s. x \<in> set xs \<Longrightarrow> \<exists>s'. body x s = Inr s'"
  shows "\<exists>s'. for_each body xs s = Inr s'"
  using assms
proof (induction xs arbitrary: s)
  case Nil
  show ?case by simp
next
  case (Cons x xs)
  from Cons.prems [of x s] obtain t where t: "body x s = Inr t" by auto
  from Cons.IH [of t] Cons.prems obtain s' where "for_each body xs t = Inr s'" by auto
  with t show ?case by simp
qed

lemma estimate_calories_total:
  assumes "list_all wf_ingredient items" and "list_all amount_moderate items"
  shows "\<exists>c. estimate_calories (JList items) = Inr c"
proof -
  have "\<exists>s'. bindE (ingredient_calories x) (\<lambda>c. Inr (s + c)) = Inr s'"
    if "x \<in> set items" for x and s :: int
  proof -
    from that assms have "wf_ingredient x" and "amount_moderate x"
      by (simp_all add: list_all_iff)
    from ingredient_calories_total [OF this] show ?thesis by auto
  qed
  from for_each_total [of items _ 0, OF this] show ?thesis
    by (simp add: estimate_calories_def py_iter_def)
qed

text \<open>
  Claim C4, as the code has it. When every amount that is present is a finite number that
  is not negative, a calorie estimate that is returned is an integer that is not negative.
  And the estimate is returned when the names can be read and every amount that is present
  is a finite number of magnitude at most \<open>10^300\<close>.
\<close>

theorem estimate_calories_nonneg:
  "(\<forall>c. list_all amount_nonneg items \<and> estimate_calories (JList items) = Inr c \<longrightarrow> 0 \<le> c) \<and>
   (list_all wf_ingredient items \<and> list_all amount_moderate items \<longrightarrow>
      (\<exists>c. estimate_calories (JList items) = Inr c))"
  using estimate_calories_nonneg_aux estimate_calories_total by blast

theorem estimate_calories_nonneg_witness:
  "list_all amount_nonneg scenario_ingredients \<and>
   list_all wf_ingredient scenario_ingredients \<and>
   list_all amount_moderate scenario_ingredients \<and>
   estimate_calories (JList scenario_ingredients) = Inr 241 \<and> (0::int) \<le> 241"
proof -
  have a: "list_all amount_nonneg scenario_ingredients" by code_simp
  have w: "list_all wf_ingredient scenario_ingredients" by code_simp
  have m: "list_all amount_moderate scenario_ingredients" by code_simp
  have e: "estimate_calories (JList scenario_ingredients) = Inr 241" by code_simp
  note t = estimate_calories_nonneg [of scenario_ingredients]
  have "\<exists>c. estimate_calories (JList scenario_ingredients) = Inr c"
    using t [THEN conjunct2, THEN mp, OF conjI [OF w m]] .
  have p: "(0::int) \<le> 241"
    using t [THEN conjunct1, THEN spec, THEN mp, OF conjI [OF a e]] .
  show ?thesis using a w m e p by (intro conjI)
qed

text \<open>
  Claim C4 as it is written fails: one ounce less than nothing of rum is a numeric amount,
  and the estimate for it is negative.
\<close>

theorem negative_amount_counterexample:
  "estimate_calories (JList [JObj [(''name'', JStr ''Rum''), (''amount'', JInt (- 1))]]) =
     Inr (- 97) \<and> \<not> (0::int) \<le> - 97"
  by code_simp

section \<open>The enriched record\<close>

lemma load_old: "a < length h \<Longrightarrow> load (h @ [x]) a = Inr (h ! a)"
  by (simp add: load_def nth_append)

lemma load_new: "load (h @ [x]) (length h) = Inr x"
  by (simp add: load_def)

lemma setitem_new:
  "setitem (h @ [JObj d]) (length h) key v = Inr (h @ [JObj (AList.update key v d)])"
  by (simp add: setitem_def load_new)

lemma get_at_new: "get_at (h @ [JObj d]) (length h) key dflt = py_get (JObj d) key dflt"
  by (simp add: get_at_def load_new)

lemma py_get_update:
  "key \<noteq> k \<Longrightarrow> py_get (JObj (AList.update k v d)) key dflt = py_get (JObj d) key dflt"
  by (simp add: py_get_def update_conv')

lemma py_copy_dict:
  "a < length h \<Longrightarrow> h ! a = JObj d \<Longrightarrow> py_copy h a = Inr (h @ [JObj d], length h)"
  by (simp add: py_copy_def load_def)

lemma enrich_normal_form:
  assumes "a < length h" and "h ! a = JObj d"
  shows "enrich_single_cocktail now h a =
     bindE (derived_fields now (JObj d)) (\<lambda>fs. Inr (h @ [JObj (assign fs d)], length h))"
  unfolding enrich_single_cocktail_def derived_fields_def
  by (simp add: py_copy_dict [OF assms] setitem_new get_at_new py_get_update
      load_old [OF assms(1)] assms(2) bindE_assoc assign_def)

lemma enrich_source_dict:
  assumes "enrich_single_cocktail now h a = Inr r"
  shows "a < length h \<and> (\<exists>d. h ! a = JObj d)"
proof (cases "a < length h")
  case False
  then show ?thesis
    using assms by (simp add: enrich_single_cocktail_def py_copy_def load_def)
next
  case True
  show ?thesis
  proof (cases "h ! a")
    case (JList xs)
    then show ?thesis
      using assms True
      by (simp add: enrich_single_cocktail_def py_copy_def load_def setitem_def)
  qed (use assms True in \<open>simp_all add: enrich_single_cocktail_def py_copy_def load_def\<close>)
qed

lemma map_of_assign:
  assumes "distinct (map fst fs)"
  shows "map_of (assign fs d) k =
     (case map_of fs k of Some v \<Rightarrow> Some v | None \<Rightarrow> map_of d k)"
  using assms
proof (induction fs arbitrary: d)
  case Nil
  show ?case by (simp add: assign_def)
next
  case (Cons f fs)
  obtain k0 v0 where f: "f = (k0, v0)" by (cases f)
  have step: "assign (f # fs) d = assign fs (AList.update k0 v0 d)"
    by (simp add: assign_def f)
  have fresh: "map_of fs k0 = None"
    using Cons.prems by (simp add: f map_of_eq_None_iff)
  have rest: "distinct (map fst fs)" using Cons.prems by simp
  show ?case
    unfolding step Cons.IH [OF rest]
    by (simp add: f update_conv' fresh split: option.splits)
qed

lemma derived_fields_keys:
  "derived_fields now c = Inr fs \<Longrightarrow> map fst fs = derived_keys"
  by (auto simp: derived_fields_def derived_keys_def bindE_eq_Inr)

lemma derived_fields_clock:
  "derived_fields now c = Inr fs \<Longrightarrow>
   derived_fields now' c = Inr ((''enriched_at'', JStr now') # tl fs) \<and>
   hd fs = (''enriched_at'', JStr now)"
  by (auto simp: derived_fields_def bindE_eq_Inr)

lemma generate_tags_base:
  assumes "\<forall>k \<in> set base_keys. map_of d k = map_of d' k"
  shows "generate_tags (JObj d) = generate_tags (JObj d')"
  using assms by (simp add: generate_tags_alt py_get_def base_keys_def)

lemma derived_fields_base:
  assumes "\<forall>k \<in> set base_keys. map_of d k = map_of d' k"
  shows "derived_fields now (JObj d) = derived_fields now (JObj d')"
  using assms generate_tags_base [OF assms]
  by (simp add: derived_fields_def py_get_def base_keys_def)

lemma derived_keys_distinct: "distinct derived_keys"
  by (simp add: derived_keys_def)

lemma assign_other_key:
  assumes "map fst fs = derived_keys" and "k \<notin> set derived_keys"
  shows "map_of (assign fs d) k = map_of d k"
proof -
  have "k \<notin> fst ` set fs"
    using assms unfolding set_map [symmetric] by simp
  then have "map_of fs k = None" by (simp add: map_of_eq_None_iff)
  moreover have "distinct (map fst fs)" using assms(1) derived_keys_distinct by simp
  ultimately show ?thesis by (simp add: map_of_assign)
qed

lemma assign_keeps_base:
  assumes "map fst fs = derived_keys"
  shows "\<forall>k \<in> set base_keys. map_of (assign fs d) k = map_of d k"
proof
  fix k assume "k \<in> set base_keys"
  then have "k \<notin> set derived_keys" by (auto simp: base_keys_def derived_keys_def)
  with assms show "map_of (assign fs d) k = map_of d k" by (rule assign_other_key)
qed

lemma assign_derived_key:
  assumes "map fst fs = derived_keys" and "k \<in> set derived_keys"
  shows "map_of (assign fs d) k = map_of fs k \<and> map_of fs k \<noteq> None"
proof -
  have d: "distinct (map fst fs)" using assms(1) derived_keys_distinct by simp
  have "k \<in> fst ` set fs" using assms unfolding set_map [symmetric] by simp
  then have "map_of fs k \<noteq> None" by (simp add: map_of_eq_None_iff)
  then show ?thesis by (auto simp: map_of_assign [OF d])
qed

lemma scenario_derived:
  "derived_fields now scenario_recipe =
     Inr [(''enriched_at'', JStr now),
          (''ingredient_count'', JInt 3),
          (''complexity_score'', JFloat (Fin 2)),
          (''instruction_word_count'', JInt 8),
          (''estimated_prep_time'', JInt 4),
          (''is_alcoholic'', JBool True),
          (''spirit_type'', JStr ''rum''),
          (''estimated_calories'', JInt 241),
          (''tags'', JList [JStr ''rum'', JStr ''shaken'', JStr ''simple''])]"
  by code_simp

lemma scenario_run:
  "enrich_single_cocktail now [scenario_recipe] 0 =
     Inr ([scenario_recipe, scenario_enriched now], 1)"
  by code_simp

lemma enrich_result:
  assumes "enrich_single_cocktail now h a = Inr (h', a')"
  shows "\<exists>d fs. a < length h \<and> h ! a = JObj d \<and> derived_fields now (JObj d) = Inr fs \<and>
           h' = h @ [JObj (assign fs d)] \<and> a' = length h"
proof -
  from enrich_source_dict [OF assms] obtain d where a: "a < length h" and d: "h ! a = JObj d"
    by blast
  from assms show ?thesis
    unfolding enrich_normal_form [OF a d] using a d by (auto simp: bindE_eq_Inr)
qed

lemma result_field_enrich:
  assumes "a < length h" and "h ! a = JObj d"
  shows "result_field (enrich_single_cocktail now h a) k =
     (case derived_fields now (JObj d) of Inl e \<Rightarrow> None | Inr fs \<Rightarrow> map_of (assign fs d) k)"
  unfolding enrich_normal_form [OF assms]
  by (cases "derived_fields now (JObj d)") (simp_all add: result_field_def load_new)

lemma enrich_error:
  assumes "a < length h" and "h ! a = JObj d"
  shows "enrich_single_cocktail now h a = Inl e \<longleftrightarrow> derived_fields now (JObj d) = Inl e"
  unfolding enrich_normal_form [OF assms]
  by (cases "derived_fields now (JObj d)") simp_all

lemma map_sum_bindE:
  "map_sum id g (bindE m f) = bindE m (\<lambda>x. map_sum id g (f x))"
  by (cases m) simp_all

lemma derived_fields_other_clock:
  "derived_fields now' c =
     map_sum id (\<lambda>fs. (''enriched_at'', JStr now') # tl fs) (derived_fields now c)"
  by (simp add: derived_fields_def map_sum_bindE)

lemma load_dict: "load h a = Inr (JObj d) \<Longrightarrow> a < length h \<and> h ! a = JObj d"
  by (auto simp: load_def split: if_splits)

lemma derived_tail:
  assumes "map fst fs = derived_keys" and "k \<noteq> ''enriched_at''"
  shows "map_of ((''enriched_at'', v) # tl fs) k = map_of fs k"
proof -
  from assms(1) obtain f fs' where fs: "fs = f # fs'" and "fst f = ''enriched_at''"
    by (cases fs) (auto simp: derived_keys_def)
  then show ?thesis using assms(2) by (cases f) simp
qed

lemma derived_keys_other_clock:
  assumes "map fst fs = derived_keys"
  shows "map fst ((''enriched_at'', v) # tl fs) = derived_keys"
  using assms by (cases fs) (auto simp: derived_keys_def)

lemma derived_fields_total:
  assumes "wf_recipe cocktail" and "moderate_amounts cocktail"
  shows "\<exists>fs. derived_fields now cocktail = Inr fs"
proof -
  from assms(1) obtain d where d: "cocktail = JObj d" and wi: "wf_text d ''instructions''"
    by (auto simp: wf_recipe_def split: json.splits)
  from assms obtain items where
    items: "py_get cocktail ''ingredients'' (JList []) = Inr (JList items)"
    and wf: "list_all wf_ingredient items" and moderate: "list_all amount_moderate items"
    by (auto simp: d wf_recipe_def moderate_amounts_def py_get_def split: option.splits json.splits)
  from wf_ingredients_names [OF wf] obtain names where
    names: "comprehension ingredient_name items = Inr names" by blast
  from wi obtain s where s: "py_get cocktail ''instructions'' (JStr []) = Inr (JStr s)"
    by (auto simp: d wf_text_def py_get_def split: option.splits json.splits)
  from estimate_calories_total [OF wf moderate] obtain c where
    c: "estimate_calories (JList items) = Inr c" by blast
  from generate_tags_total [OF assms(1)] obtain tags where
    tags: "generate_tags cocktail = Inr tags" by blast
  show ?thesis
    unfolding derived_fields_def
    by (simp add: items s names c tags complexity_value [OF names] prep_time_value
        spirit_type_value [OF names] py_len_def py_iter_def py_split_def)
qed

lemma enrich_total:
  assumes "load h a = Inr cocktail" and "wf_recipe cocktail" and "moderate_amounts cocktail"
  shows "\<exists>h' enriched. enrich_single_cocktail now h a = Inr (h', enriched)"
proof -
  from assms(2) obtain d where d: "cocktail = JObj d"
    by (auto simp: wf_recipe_def split: json.splits)
  from load_dict [OF assms(1) [unfolded d]] have live: "a < length h" and obj: "h ! a = JObj d"
    by simp_all
  from derived_fields_total [OF assms(2,3), of now] obtain fs where
    "derived_fields now (JObj d) = Inr fs" unfolding d by blast
  then show ?thesis unfolding enrich_normal_form [OF live obj] by simp
qed

text \<open>
  Claim C6. The recipe of the scenario (light rum 2, lime juice 1, simple syrup 0.75,
  shaken and strained) is enriched to spirit type \<^verbatim>\<open>rum\<close>, alcoholic, three ingredients,
  tags that include \<^verbatim>\<open>shaken\<close> and \<^verbatim>\<open>rum\<close>, and 241 calories, which is
  \<open>97 \<times> 2\<close>, \<open>8 \<times> 1\<close> and \<open>53 \<times> 0.75\<close> each truncated and then added.
\<close>

theorem scenario_enrichment:
  "result_field (enrich_single_cocktail now [scenario_recipe] 0) ''spirit_type'' =
     Some (JStr ''rum'') \<and>
   result_field (enrich_single_cocktail now [scenario_recipe] 0) ''is_alcoholic'' =
     Some (JBool True) \<and>
   result_field (enrich_single_cocktail now [scenario_recipe] 0) ''ingredient_count'' =
     Some (JInt 3) \<and>
   (\<exists>tags. result_field (enrich_single_cocktail now [scenario_recipe] 0) ''tags'' =
             Some (JList tags) \<and>
           JStr ''shaken'' \<in> set tags \<and> JStr ''rum'' \<in> set tags) \<and>
   result_field (enrich_single_cocktail now [scenario_recipe] 0) ''estimated_calories'' =
     Some (JInt (\<lfloor>97 * 2 :: rat\<rfloor> + \<lfloor>8 * 1 :: rat\<rfloor> + \<lfloor>53 * (3 / 4) :: rat\<rfloor>)) \<and>
   \<lfloor>97 * 2 :: rat\<rfloor> + \<lfloor>8 * 1 :: rat\<rfloor> + \<lfloor>53 * (3 / 4) :: rat\<rfloor> = 241"
proof -
  have fl: "\<lfloor>97 * 2 :: rat\<rfloor> + \<lfloor>8 * 1 :: rat\<rfloor> + \<lfloor>53 * (3 / 4) :: rat\<rfloor> = 241"
    by (simp add: floor_eq_iff)
  show ?thesis
    unfolding scenario_run fl
    by (simp add: result_field_def load_def scenario_enriched_def)
qed

text \<open>
  Claim C7. When a record has been enriched, enriching the enriched record again succeeds,
  and the second result has the same value as the first in every field but
  \<^verbatim>\<open>enriched_at\<close>, which holds the second reading of the clock.
\<close>

theorem enrich_idempotent:
  assumes "enrich_single_cocktail t1 h a = Inr (h1, a1)"
  shows "\<exists>h2 a2. enrich_single_cocktail t2 h1 a1 = Inr (h2, a2) \<and>
           result_field (Inr (h2, a2)) ''enriched_at'' = Some (JStr t2) \<and>
           (\<forall>k. k \<noteq> ''enriched_at'' \<longrightarrow>
              result_field (Inr (h2, a2)) k = result_field (Inr (h1, a1)) k)"
proof -
  from enrich_result [OF assms] obtain d fs where
    fs: "derived_fields t1 (JObj d) = Inr fs"
    and h1: "h1 = h @ [JObj (assign fs d)]" and a1: "a1 = length h"
    by blast
  define d1 where "d1 = assign fs d"
  define fs2 where "fs2 = (''enriched_at'', JStr t2) # tl fs"
  have keys: "map fst fs = derived_keys" using fs by (rule derived_fields_keys)
  have keys2: "map fst fs2 = derived_keys"
    unfolding fs2_def using keys by (rule derived_keys_other_clock)
  have live: "a1 < length h1" and obj: "h1 ! a1 = JObj d1"
    by (simp_all add: h1 a1 d1_def)
  have base: "\<forall>k \<in> set base_keys. map_of d1 k = map_of d k"
    unfolding d1_def using keys by (rule assign_keeps_base)
  have "derived_fields t2 (JObj d1) = derived_fields t2 (JObj d)"
    using base by (rule derived_fields_base)
  also have "\<dots> = Inr fs2"
    unfolding derived_fields_other_clock [of t2 "JObj d" t1] fs fs2_def by simp
  finally have second: "derived_fields t2 (JObj d1) = Inr fs2" .
  have run: "enrich_single_cocktail t2 h1 a1 = Inr (h1 @ [JObj (assign fs2 d1)], length h1)"
    unfolding enrich_normal_form [OF live obj] second by simp
  have new: "result_field (Inr (h1 @ [JObj (assign fs2 d1)], length h1)) k = map_of (assign fs2 d1) k"
    for k by (simp add: result_field_def load_new)
  have old: "result_field (Inr (h1, a1)) k = map_of d1 k" for k
    by (simp add: result_field_def h1 a1 load_new d1_def)
  have stamp: "map_of (assign fs2 d1) ''enriched_at'' = Some (JStr t2)"
    using assign_derived_key [OF keys2, of "''enriched_at''" d1]
    by (simp add: derived_keys_def fs2_def)
  have same: "map_of (assign fs2 d1) k = map_of d1 k" if k: "k \<noteq> ''enriched_at''" for k
  proof (cases "k \<in> set derived_keys")
    case True
    have "map_of (assign fs2 d1) k = map_of fs2 k"
      using assign_derived_key [OF keys2 True] by simp
    also have "\<dots> = map_of fs k" unfolding fs2_def using keys k by (rule derived_tail)
    also have "\<dots> = map_of d1 k"
      unfolding d1_def using assign_derived_key [OF keys True] by simp
    finally show ?thesis .
  next
    case False
    with keys2 show ?thesis by (rule assign_other_key)
  qed
  show ?thesis
    using run stamp same by (auto simp: new old)
qed

theorem enrich_idempotent_witness:
  "enrich_single_cocktail ''2024-01-01T00:00:00'' [scenario_recipe] 0 =
     Inr ([scenario_recipe, scenario_enriched ''2024-01-01T00:00:00''], 1) \<and>
   result_field
     (enrich_single_cocktail ''2024-06-30T12:00:00''
        [scenario_recipe, scenario_enriched ''2024-01-01T00:00:00''] 1) ''enriched_at'' =
     Some (JStr ''2024-06-30T12:00:00'') \<and>
   result_field
     (enrich_single_cocktail ''2024-06-30T12:00:00''
        [scenario_recipe, scenario_enriched ''2024-01-01T00:00:00''] 1) ''estimated_calories'' =
     Some (JInt 241) \<and>
   result_field
     (enrich_single_cocktail ''2024-06-30T12:00:00''
        [scenario_recipe, scenario_enriched ''2024-01-01T00:00:00''] 1) ''tags'' =
     Some (JList [JStr ''rum'', JStr ''shaken'', JStr ''simple''])"
proof -
  let ?h1 = "[scenario_recipe, scenario_enriched ''2024-01-01T00:00:00'']"
  have first: "enrich_single_cocktail ''2024-01-01T00:00:00'' [scenario_recipe] 0 = Inr (?h1, 1)"
    by (rule scenario_run)
  from enrich_idempotent [OF first, of "''2024-06-30T12:00:00''"] obtain h2 a2 where
    second: "enrich_single_cocktail ''2024-06-30T12:00:00'' ?h1 1 = Inr (h2, a2)"
    and stamp: "result_field (Inr (h2, a2)) ''enriched_at'' = Some (JStr ''2024-06-30T12:00:00'')"
    and same: "\<forall>k. k \<noteq> ''enriched_at'' \<longrightarrow>
        result_field (Inr (h2, a2)) k = result_field (Inr (?h1, 1)) k"
    by blast
  have c: "result_field (Inr (h2, a2)) ''estimated_calories'' = Some (JInt 241)"
    using same [THEN spec, of "''estimated_calories''"]
    by (simp add: result_field_def load_def scenario_enriched_def)
  have t: "result_field (Inr (h2, a2)) ''tags'' =
      Some (JList [JStr ''rum'', JStr ''shaken'', JStr ''simple''])"
    using same [THEN spec, of "''tags''"]
    by (simp add: result_field_def load_def scenario_enriched_def)
  show ?thesis
    unfolding second using first stamp c t by (intro conjI)
qed

text \<open>
  Claim C8. The enrichment of a well-formed recipe with moderate amounts returns. An
  enrichment that returns has allocated one new object for the record it returns and has
  left every object that existed, the source record among them, as it was. The new record
  holds each field of the source whose name is not the name of a derived field with the
  value it has in the source, the four base fields among them, and it holds every derived
  field.
\<close>

theorem enrich_leaves_source_unchanged:
  "(\<forall>c. load h cocktail = Inr c \<and> wf_recipe c \<and> moderate_amounts c \<longrightarrow>
      (\<exists>h' enriched. enrich_single_cocktail now h cocktail = Inr (h', enriched))) \<and>
   (\<forall>h' enriched. enrich_single_cocktail now h cocktail = Inr (h', enriched) \<longrightarrow>
      enriched \<noteq> cocktail \<and> length h' = Suc (length h) \<and> take (length h) h' = h \<and>
      load h' cocktail = load h cocktail \<and>
      (\<exists>d d'. load h cocktail = Inr (JObj d) \<and> load h' enriched = Inr (JObj d') \<and>
         (\<forall>k. k \<notin> set derived_keys \<longrightarrow> map_of d' k = map_of d k) \<and>
         (\<forall>k \<in> set base_keys. map_of d' k = map_of d k) \<and>
         (\<forall>k \<in> set derived_keys. map_of d' k \<noteq> None)))"
proof (intro conjI allI impI)
  fix c assume "load h cocktail = Inr c \<and> wf_recipe c \<and> moderate_amounts c"
  then show "\<exists>h' enriched. enrich_single_cocktail now h cocktail = Inr (h', enriched)"
    using enrich_total by blast
next
  fix h' enriched
  assume run: "enrich_single_cocktail now h cocktail = Inr (h', enriched)"
  from enrich_result [OF run] obtain d fs where
    live: "cocktail < length h" and obj: "h ! cocktail = JObj d"
    and fs: "derived_fields now (JObj d) = Inr fs"
    and h': "h' = h @ [JObj (assign fs d)]" and e: "enriched = length h"
    by blast
  have keys: "map fst fs = derived_keys" using fs by (rule derived_fields_keys)
  have src: "load h cocktail = Inr (JObj d)" using live obj by (simp add: load_def)
  have new: "load h' enriched = Inr (JObj (assign fs d))" by (simp add: h' e load_new)
  have other: "\<forall>k. k \<notin> set derived_keys \<longrightarrow> map_of (assign fs d) k = map_of d k"
    using assign_other_key [OF keys] by blast
  have base: "\<forall>k \<in> set base_keys. map_of (assign fs d) k = map_of d k"
    using keys by (rule assign_keeps_base)
  have derived: "\<forall>k \<in> set derived_keys. map_of (assign fs d) k \<noteq> None"
  proof
    fix k assume "k \<in> set derived_keys"
    from assign_derived_key [OF keys this, of d] show "map_of (assign fs d) k \<noteq> None"
      by simp
  qed
  show "enriched \<noteq> cocktail" using live e by simp
  show "length h' = Suc (length h)" by (simp add: h')
  show "take (length h) h' = h" by (simp add: h')
  show "load h' cocktail = load h cocktail"
    using live by (simp add: h' load_def nth_append)
  show "\<exists>d d'. load h cocktail = Inr (JObj d) \<and> load h' enriched = Inr (JObj d') \<and>
         (\<forall>k. k \<notin> set derived_keys \<longrightarrow> map_of d' k = map_of d k) \<and>
         (\<forall>k \<in> set base_keys. map_of d' k = map_of d k) \<and>
         (\<forall>k \<in> set derived_keys. map_of d' k \<noteq> None)"
    using src new other base derived by blast
qed

theorem enrich_leaves_source_unchanged_witness:
  "load [scenario_recipe] 0 = Inr scenario_recipe \<and> wf_recipe scenario_recipe \<and>
   moderate_amounts scenario_recipe \<and>
   enrich_single_cocktail ''2024-01-01T00:00:00'' [scenario_recipe] 0 =
     Inr ([scenario_recipe, scenario_enriched ''2024-01-01T00:00:00''], 1) \<and>
   (1::nat) \<noteq> 0 \<and>
   take (length [scenario_recipe]) [scenario_recipe, scenario_enriched ''2024-01-01T00:00:00''] =
     [scenario_recipe] \<and>
   load [scenario_recipe, scenario_enriched ''2024-01-01T00:00:00''] 0 = load [scenario_recipe] 0"
proof -
  have l: "load [scenario_recipe] 0 = Inr scenario_recipe" by (simp add: load_def)
  have w: "wf_recipe scenario_recipe" by code_simp
  have m: "moderate_amounts scenario_recipe" by code_simp
  have run: "enrich_single_cocktail ''2024-01-01T00:00:00'' [scenario_recipe] 0 =
     Inr ([scenario_recipe, scenario_enriched ''2024-01-01T00:00:00''], 1)"
    by (rule scenario_run)
  note t = enrich_leaves_source_unchanged [of "[scenario_recipe]" 0 "''2024-01-01T00:00:00''"]
  have "\<exists>h' enriched. enrich_single_cocktail ''2024-01-01T00:00:00'' [scenario_recipe] 0 =
      Inr (h', enriched)"
    using t [THEN conjunct1, THEN spec, THEN mp, OF conjI [OF l conjI [OF w m]]] .
  note frame = t [THEN conjunct2, THEN spec, THEN spec, THEN mp, OF run]
  show ?thesis
    using l w m run frame [THEN conjunct1]
      frame [THEN conjunct2, THEN conjunct2, THEN conjunct1]
      frame [THEN conjunct2, THEN conjunct2, THEN conjunct2, THEN conjunct1]
    by (intro conjI)
qed

text \<open>
  Claim C10. Two records that agree on the fields \<^verbatim>\<open>ingredients\<close>, \<^verbatim>\<open>instructions\<close>,
  \<^verbatim>\<open>category\<close> and \<^verbatim>\<open>glass\<close>, each present with the same value in both or absent from
  both, are enriched alike, whatever else they hold, wherever they are stored and whatever
  the clock reads: every derived field but \<^verbatim>\<open>enriched_at\<close> has the same value in the two
  results, and when one enrichment raises an error the other raises the same error.
\<close>

theorem derived_fields_noninterference:
  assumes "load h a = Inr (JObj d)" and "load h' a' = Inr (JObj d')"
    and "\<forall>k \<in> set base_keys. map_of d k = map_of d' k"
  shows "(\<forall>k \<in> set derived_keys. k \<noteq> ''enriched_at'' \<longrightarrow>
            result_field (enrich_single_cocktail t h a) k =
            result_field (enrich_single_cocktail t' h' a') k) \<and>
         (\<forall>e. enrich_single_cocktail t h a = Inl e \<longleftrightarrow> enrich_single_cocktail t' h' a' = Inl e)"
proof -
  from load_dict [OF assms(1)] have live: "a < length h" and obj: "h ! a = JObj d" by simp_all
  from load_dict [OF assms(2)] have live': "a' < length h'" and obj': "h' ! a' = JObj d'"
    by simp_all
  have eq: "derived_fields t' (JObj d') =
      map_sum id (\<lambda>fs. (''enriched_at'', JStr t') # tl fs) (derived_fields t (JObj d))"
    unfolding derived_fields_base [OF assms(3), symmetric]
    by (rule derived_fields_other_clock)
  show ?thesis
  proof (cases "derived_fields t (JObj d)")
    case (Inl e)
    then have "derived_fields t' (JObj d') = Inl e" by (simp add: eq)
    with Inl show ?thesis
      by (simp add: result_field_enrich [OF live obj] result_field_enrich [OF live' obj']
          enrich_error [OF live obj] enrich_error [OF live' obj'])
  next
    case (Inr fs)
    define fs' where "fs' = (''enriched_at'', JStr t') # tl fs"
    have second: "derived_fields t' (JObj d') = Inr fs'" by (simp add: eq Inr fs'_def)
    have keys: "map fst fs = derived_keys" using Inr by (rule derived_fields_keys)
    have keys': "map fst fs' = derived_keys"
      unfolding fs'_def using keys by (rule derived_keys_other_clock)
    have "map_of (assign fs d) k = map_of (assign fs' d') k"
      if k: "k \<in> set derived_keys" and ne: "k \<noteq> ''enriched_at''" for k
    proof -
      have "map_of (assign fs' d') k = map_of fs' k"
        using assign_derived_key [OF keys' k] by simp
      also have "\<dots> = map_of fs k" unfolding fs'_def using keys ne by (rule derived_tail)
      also have "\<dots> = map_of (assign fs d) k"
        using assign_derived_key [OF keys k] by simp
      finally show ?thesis by simp
    qed
    then show ?thesis
      by (simp add: result_field_enrich [OF live obj] result_field_enrich [OF live' obj']
          enrich_error [OF live obj] enrich_error [OF live' obj'] Inr second)
  qed
qed

theorem derived_fields_noninterference_witness:
  "load [scenario_recipe] 0 =
     Inr (JObj [(''ingredients'', JList scenario_ingredients),
                (''instructions'', JStr scenario_instructions)]) \<and>
   load [JNull, JObj [(''name'', JStr ''Daiquiri''),
                      (''instructions'', JStr scenario_instructions),
                      (''tags'', JList [JStr ''classic'']),
                      (''ingredients'', JList scenario_ingredients)]] 1 =
     Inr (JObj [(''name'', JStr ''Daiquiri''),
                (''instructions'', JStr scenario_instructions),
                (''tags'', JList [JStr ''classic'']),
                (''ingredients'', JList scenario_ingredients)]) \<and>
   result_field
     (enrich_single_cocktail ''2024-06-30T12:00:00''
        [JNull, JObj [(''name'', JStr ''Daiquiri''),
                      (''instructions'', JStr scenario_instructions),
                      (''tags'', JList [JStr ''classic'']),
                      (''ingredients'', JList scenario_ingredients)]] 1) ''tags'' =
     Some (JList [JStr ''rum'', JStr ''shaken'', JStr ''simple''])"
proof -
  let ?d = "[(''ingredients'', JList scenario_ingredients),
             (''instructions'', JStr scenario_instructions)]"
  let ?d' = "[(''name'', JStr ''Daiquiri''),
              (''instructions'', JStr scenario_instructions),
              (''tags'', JList [JStr ''classic'']),
              (''ingredients'', JList scenario_ingredients)]"
  have l: "load [scenario_recipe] 0 = Inr (JObj ?d)"
    by (simp add: load_def scenario_recipe_def)
  have l': "load [JNull, JObj ?d'] 1 = Inr (JObj ?d')"
    by (simp add: load_def)
  have agree: "\<forall>k \<in> set base_keys. map_of ?d k = map_of ?d' k"
    by (simp add: base_keys_def)
  have tags: "''tags'' \<in> set derived_keys" by (simp add: derived_keys_def)
  note ni = derived_fields_noninterference [OF l l' agree,
      of "''2024-01-01T00:00:00''" "''2024-06-30T12:00:00''", THEN conjunct1, THEN bspec, OF tags]
  have "result_field (enrich_single_cocktail ''2024-06-30T12:00:00'' [JNull, JObj ?d'] 1) ''tags'' =
      result_field (enrich_single_cocktail ''2024-01-01T00:00:00'' [scenario_recipe] 0) ''tags''"
    using ni by simp
  also have "\<dots> = Some (JList [JStr ''rum'', JStr ''shaken'', JStr ''simple''])"
    unfolding scenario_run by (simp add: result_field_def load_def scenario_enriched_def)
  finally show ?thesis using l l' by (intro conjI)
qed

section \<open>The summary and the handler\<close>

lemma client_error_swallowed: "write_processing_summary e h data dpart \<noteq> Inl ClientError"
  by (cases "summary_try e h data dpart" rule: sum.exhaust [case_names Inl Inr])
     (auto simp: write_processing_summary_def split: error.splits)

lemma empty_summary_raises: "summary_try e h [] dpart = Inl ZeroDivisionError"
  by (simp add: summary_try_def py_sum_def py_truediv_def as_number_def)

lemma empty_summary_not_caught:
  "write_processing_summary e h [] dpart = Inl ZeroDivisionError"
  by (simp add: write_processing_summary_def empty_summary_raises)

lemma empty_batch_enriched:
  "s3_get_object e bucket (''transformed/'' @ dpart @ ''/transformed_cocktail_data.json'') =
     Inr (JList []) \<Longrightarrow>
   enrich_cocktail_data e bucket dpart = Inr ([], [])"
  by (simp add: enrich_cocktail_data_def read_from_s3_def)

text \<open>
  Claim C1 against the code. The S3 object holds the empty list and both writes would
  succeed: no record is enriched, the enriched collection is written, and the division by
  the record count in \<^verbatim>\<open>write_processing_summary\<close> raises \<^verbatim>\<open>ZeroDivisionError\<close>, which
  \<^verbatim>\<open>except ClientError\<close> does not catch and the handler raises again. The invocation
  fails where the claim has it succeed with \<^verbatim>\<open>records_processed\<close> 0.
\<close>

theorem empty_batch_raises:
  "lambda_handler (quiet_env (JList [])) ev = Inl ZeroDivisionError"
  by (simp add: lambda_handler_def empty_batch_enriched quiet_env_def write_to_s3_def
      empty_summary_not_caught)

section \<open>Amounts that are absent and amounts that are rejected\<close>

lemma py_float_errors:
  assumes "py_float v = Inl e"
  shows "e = ValueError \<and> (\<exists>s. v = JStr s) \<or>
         e = TypeError \<and> (v = JNull \<or> (\<exists>xs. v = JList xs) \<or> (\<exists>m. v = JObj m)) \<or>
         e = OverflowError \<and> (\<exists>n. v = JInt n)"
  using assms by (cases v) (auto simp: py_float_def split: pyfloat.splits option.splits)

lemma derived_fields_calories:
  assumes "derived_fields now (JObj r) = Inr fs" and "map_of r ''ingredients'' = Some ingredients"
  shows "\<exists>c. estimate_calories ingredients = Inr c"
  using assms by (auto simp: derived_fields_def py_get_def bindE_eq_Inr)

lemma enrich_raises_with_calories:
  assumes "load h a = Inr (JObj r)" and "map_of r ''ingredients'' = Some ingredients"
    and "estimate_calories ingredients = Inl e"
  shows "\<exists>e'. enrich_single_cocktail now h a = Inl e'"
proof (cases "enrich_single_cocktail now h a")
  case (Inl e')
  then show ?thesis by blast
next
  case (Inr res)
  obtain h' a' where "res = (h', a')" by (cases res)
  with Inr enrich_result [of now h a h' a'] obtain d fs where
    "h ! a = JObj d" and fs: "derived_fields now (JObj d) = Inr fs" by blast
  moreover from load_dict [OF assms(1)] have "h ! a = JObj r" by simp
  ultimately have "derived_fields now (JObj r) = Inr fs" by simp
  from derived_fields_calories [OF this assms(2)] assms(3) show ?thesis by simp
qed

lemma for_each_raises:
  assumes "x \<in> set xs" and "P s"
    and "\<And>y t t'. P t \<Longrightarrow> body y t = Inr t' \<Longrightarrow> P t'"
    and "\<And>t. P t \<Longrightarrow> \<exists>e. body x t = Inl e"
  shows "\<exists>e. for_each body xs s = Inl e"
  using assms(1,2)
proof (induction xs arbitrary: s)
  case Nil
  then show ?case by simp
next
  case (Cons y ys)
  show ?case
  proof (cases "body y s")
    case (Inl e)
    then show ?thesis by simp
  next
    case (Inr t)
    with Cons.prems(2) have t: "P t" using assms(3) by blast
    show ?thesis
    proof (cases "x = y")
      case True
      with assms(4) [OF Cons.prems(2)] Inr show ?thesis by simp
    next
      case False
      with Cons.prems(1) have "x \<in> set ys" by simp
      from Cons.IH [OF this t] Inr show ?thesis by simp
    qed
  qed
qed

lemma enrich_cocktail_data_raises:
  assumes "read_from_s3 e bucket (''transformed/'' @ dpart @ ''/transformed_cocktail_data.json'') =
      Inr records"
    and "k < length records" and "records ! k = JObj r"
    and "map_of r ''ingredients'' = Some ingredients"
    and "estimate_calories ingredients = Inl err"
  shows "\<exists>e'. enrich_cocktail_data e bucket dpart = Inl e'"
proof -
  let ?body = "\<lambda>cocktail (h, enriched_recipes).
      bindE (enrich_single_cocktail (isoformat_now e cocktail) h cocktail)
        (\<lambda>(h, enriched_cocktail). Inr (h, enriched_recipes @ [enriched_cocktail]))"
  let ?P = "\<lambda>(h, rs :: nat list). length records \<le> length h \<and> take (length records) h = records"
  have "\<exists>e'. for_each ?body [0..<length records] (records, []) = Inl e'"
  proof (rule for_each_raises [where x = k and P = ?P])
    show "k \<in> set [0..<length records]" using assms(2) by simp
    show "?P (records, [])" by simp
  next
    fix y t t' assume p: "?P t" and step: "?body y t = Inr t'"
    obtain h rs where t: "t = (h, rs)" by (cases t)
    from step obtain h' a' where "enrich_single_cocktail (isoformat_now e y) h y = Inr (h', a')"
      and t': "t' = (h', rs @ [a'])"
      by (auto simp: t bindE_eq_Inr)
    from enrich_result [OF this(1)] obtain x where "h' = h @ [x]" by blast
    with p show "?P t'" by (simp add: t t')
  next
    fix t assume p: "?P t"
    obtain h rs where t: "t = (h, rs)" by (cases t)
    from p have len: "length records \<le> length h" and pre: "take (length records) h = records"
      by (simp_all add: t)
    have "h ! k = take (length records) h ! k" using assms(2) by simp
    then have "load h k = Inr (JObj r)"
      using assms(2,3) len by (simp add: pre load_def)
    from enrich_raises_with_calories [OF this assms(4,5), of "isoformat_now e k"]
    show "\<exists>e'. ?body k t = Inl e'" by (auto simp: t)
  qed
  then show ?thesis
    unfolding enrich_cocktail_data_def Let_def assms(1) by simp
qed

lemma lambda_handler_raises:
  assumes "enrich_cocktail_data e
      (case input_bucket ev of None \<Rightarrow> ''mocktailverse-processed-data'' | Some b \<Rightarrow> b)
      (case date_partition ev of None \<Rightarrow> today e | Some p \<Rightarrow> p) = Inl e'"
  shows "lambda_handler e ev = Inl e'"
  using assms by (simp add: lambda_handler_def Let_def)

text \<open>
  Claim C2, as the code has it. For an ingredient whose name can be read: when the amount is
  absent the estimator takes 0 for it, the ingredient adds 0 calories, and the estimate of a
  list is the estimate of the list without it. When the amount is present and \<^verbatim>\<open>float\<close>
  rejects it, nothing is put in its place. The error of \<^verbatim>\<open>float\<close> is \<^verbatim>\<open>ValueError\<close> for
  a string, \<^verbatim>\<open>TypeError\<close> for \<^verbatim>\<open>None\<close>, a list or a dict, and \<^verbatim>\<open>OverflowError\<close> for an
  \<^verbatim>\<open>int\<close>; it is the result for the ingredient; the estimate of every list that holds the
  ingredient is an error, the enrichment of every record with such a list of ingredients
  is an error, and the handler ends with an error for every batch read that holds such a
  record.
\<close>

theorem absent_amount_is_zero:
  assumes "ingredient_name (JObj d) = Inr name"
  shows "(map_of d ''amount'' = None \<longrightarrow>
            ingredient_calories (JObj d) = Inr 0 \<and>
            estimate_calories (JList (pre @ JObj d # post)) = estimate_calories (JList (pre @ post))) \<and>
         (\<forall>v e. map_of d ''amount'' = Some v \<and> py_float v = Inl e \<longrightarrow>
            (e = ValueError \<and> (\<exists>s. v = JStr s) \<or>
             e = TypeError \<and> (v = JNull \<or> (\<exists>xs. v = JList xs) \<or> (\<exists>m. v = JObj m)) \<or>
             e = OverflowError \<and> (\<exists>n. v = JInt n)) \<and>
            ingredient_calories (JObj d) = Inl e \<and>
            (\<exists>e'. estimate_calories (JList (pre @ JObj d # post)) = Inl e') \<and>
            (\<forall>now h a r.
               load h a = Inr (JObj r) \<and>
               map_of r ''ingredients'' = Some (JList (pre @ JObj d # post)) \<longrightarrow>
               (\<exists>e'. enrich_single_cocktail now h a = Inl e')) \<and>
            (\<forall>env ev records k r.
               read_from_s3 env
                 (case input_bucket ev of None \<Rightarrow> ''mocktailverse-processed-data'' | Some b \<Rightarrow> b)
                 (''transformed/'' @ (case date_partition ev of None \<Rightarrow> today env | Some p \<Rightarrow> p)
                    @ ''/transformed_cocktail_data.json'') = Inr records \<and>
               k < length records \<and> records ! k = JObj r \<and>
               map_of r ''ingredients'' = Some (JList (pre @ JObj d # post)) \<longrightarrow>
               (\<exists>e'. lambda_handler env ev = Inl e')))"
proof (intro conjI allI impI)
  assume none: "map_of d ''amount'' = None"
  show zero: "ingredient_calories (JObj d) = Inr 0"
    using assms none by (rule absent_amount_calories)
  show "estimate_calories (JList (pre @ JObj d # post)) = estimate_calories (JList (pre @ post))"
    using zero by (rule estimate_calories_skip)
next
  fix v e assume "map_of d ''amount'' = Some v \<and> py_float v = Inl e"
  then have some: "map_of d ''amount'' = Some v" and rej: "py_float v = Inl e" by simp_all
  show "e = ValueError \<and> (\<exists>s. v = JStr s) \<or>
        e = TypeError \<and> (v = JNull \<or> (\<exists>xs. v = JList xs) \<or> (\<exists>m. v = JObj m)) \<or>
        e = OverflowError \<and> (\<exists>n. v = JInt n)"
    using rej by (rule py_float_errors)
  show err: "ingredient_calories (JObj d) = Inl e"
    using assms some rej by (rule rejected_amount_calories)
  from err obtain e0 where list: "estimate_calories (JList (pre @ JObj d # post)) = Inl e0"
    using estimate_calories_raises by blast
  then show "\<exists>e'. estimate_calories (JList (pre @ JObj d # post)) = Inl e'" by blast
  {
    fix now h a r
    assume "load h a = Inr (JObj r) \<and>
      map_of r ''ingredients'' = Some (JList (pre @ JObj d # post))"
    then have l: "load h a = Inr (JObj r)"
      and i: "map_of r ''ingredients'' = Some (JList (pre @ JObj d # post))" by simp_all
    show "\<exists>e'. enrich_single_cocktail now h a = Inl e'"
      using l i list by (rule enrich_raises_with_calories)
  }
  {
    fix env :: env and ev :: event and records k r
    assume "read_from_s3 env
        (case input_bucket ev of None \<Rightarrow> ''mocktailverse-processed-data'' | Some b \<Rightarrow> b)
        (''transformed/'' @ (case date_partition ev of None \<Rightarrow> today env | Some p \<Rightarrow> p)
           @ ''/transformed_cocktail_data.json'') = Inr records \<and>
      k < length records \<and> records ! k = JObj r \<and>
      map_of r ''ingredients'' = Some (JList (pre @ JObj d # post))"
    then have rd: "read_from_s3 env
        (case input_bucket ev of None \<Rightarrow> ''mocktailverse-processed-data'' | Some b \<Rightarrow> b)
        (''transformed/'' @ (case date_partition ev of None \<Rightarrow> today env | Some p \<Rightarrow> p)
           @ ''/transformed_cocktail_data.json'') = Inr records"
      and k: "k < length records" and r: "records ! k = JObj r"
      and i: "map_of r ''ingredients'' = Some (JList (pre @ JObj d # post))" by simp_all
    from enrich_cocktail_data_raises [OF rd k r i list] obtain e' where
      "enrich_cocktail_data env
         (case input_bucket ev of None \<Rightarrow> ''mocktailverse-processed-data'' | Some b \<Rightarrow> b)
         (case date_partition ev of None \<Rightarrow> today env | Some p \<Rightarrow> p) = Inl e'"
      by blast
    then have "lambda_handler env ev = Inl e'" by (rule lambda_handler_raises)
    then show "\<exists>e'. lambda_handler env ev = Inl e'" by blast
  }
qed

theorem absent_amount_is_zero_witness:
  "ingredient_name (JObj [(''name'', JStr ''White Rum'')]) = Inr ''white rum'' \<and>
   map_of [(''name'', JStr ''White Rum'')] ''amount'' = None \<and>
   ingredient_calories (JObj [(''name'', JStr ''White Rum'')]) = Inr 0 \<and>
   estimate_calories (JList ([] @ JObj [(''name'', JStr ''White Rum'')] # scenario_ingredients)) =
     estimate_calories (JList ([] @ scenario_ingredients)) \<and>
   ingredient_name (JObj [(''name'', JStr ''Rum''), (''amount'', JStr ''2 oz'')]) = Inr ''rum'' \<and>
   py_float (JStr ''2 oz'') = Inl ValueError \<and>
   ingredient_calories (JObj [(''name'', JStr ''Rum''), (''amount'', JStr ''2 oz'')]) = Inl ValueError \<and>
   (\<exists>e'. enrich_single_cocktail ''2024-01-01T00:00:00''
      [JObj [(''ingredients'',
         JList ([] @ JObj [(''name'', JStr ''Rum''), (''amount'', JStr ''2 oz'')] # []))]] 0 =
      Inl e') \<and>
   (\<exists>e'. lambda_handler
      (quiet_env (JList [JObj [(''ingredients'',
         JList ([] @ JObj [(''name'', JStr ''Rum''), (''amount'', JStr ''2 oz'')] # []))]]))
      default_event = Inl e')"
proof -
  let ?bad = "[(''name'', JStr ''Rum''), (''amount'', JStr ''2 oz'')]"
  let ?r = "[(''ingredients'', JList ([] @ JObj ?bad # []))]"
  let ?env = "quiet_env (JList [JObj ?r])"
  have n1: "ingredient_name (JObj [(''name'', JStr ''White Rum'')]) = Inr ''white rum''"
    by code_simp
  have a1: "map_of [(''name'', JStr ''White Rum'')] ''amount'' = None"
    by simp
  have n2: "ingredient_name (JObj ?bad) = Inr ''rum''"
    by code_simp
  have a2: "map_of ?bad ''amount'' = Some (JStr ''2 oz'') \<and> py_float (JStr ''2 oz'') = Inl ValueError"
    by code_simp
  have l: "load [JObj ?r] 0 = Inr (JObj ?r) \<and>
      map_of ?r ''ingredients'' = Some (JList ([] @ JObj ?bad # []))"
    by (simp add: load_def)
  have rd: "read_from_s3 ?env
        (case input_bucket default_event of None \<Rightarrow> ''mocktailverse-processed-data''
         | Some b \<Rightarrow> b)
        (''transformed/'' @ (case date_partition default_event of None \<Rightarrow> today ?env | Some p \<Rightarrow> p)
           @ ''/transformed_cocktail_data.json'') = Inr [JObj ?r] \<and>
      0 < length [JObj ?r] \<and> [JObj ?r] ! 0 = JObj ?r \<and>
      map_of ?r ''ingredients'' = Some (JList ([] @ JObj ?bad # []))"
    by (simp add: read_from_s3_def quiet_env_def)
  note absent = absent_amount_is_zero [OF n1, of "[]" scenario_ingredients, THEN conjunct1, THEN mp, OF a1]
  note rejected = absent_amount_is_zero [OF n2, of "[]" "[]", THEN conjunct2, THEN spec, THEN spec,
      THEN mp, OF a2]
  note ingredient = rejected [THEN conjunct2, THEN conjunct1]
  note single = rejected [THEN conjunct2, THEN conjunct2, THEN conjunct2, THEN conjunct1,
      THEN spec, THEN spec, THEN spec, THEN spec, THEN mp, OF l]
  note batch = rejected [THEN conjunct2, THEN conjunct2, THEN conjunct2, THEN conjunct2,
      THEN spec, THEN spec, THEN spec, THEN spec, THEN spec, THEN mp, OF rd]
  have p: "py_float (JStr ''2 oz'') = Inl ValueError" using a2 by simp
  show ?thesis
    using n1 a1 n2 p absent [THEN conjunct1] absent [THEN conjunct2] ingredient
      single [of "''2024-01-01T00:00:00''"] batch
    by (intro conjI)
qed

text \<open>
  Claim C2 as it is written fails: the amount \<^verbatim>\<open>2 oz\<close> is not taken as 0. \<^verbatim>\<open>float\<close> raises
  \<^verbatim>\<open>ValueError\<close>, and the estimator, the enrichment of the record and the handler of the
  batch that holds the record all end with it.
\<close>

theorem malformed_amount_raises_counterexample:
  "estimate_calories (JList [JObj [(''name'', JStr ''Rum''), (''amount'', JStr ''2 oz'')]]) =
     Inl ValueError \<and>
   enrich_single_cocktail ''2024-01-01T00:00:00''
     [JObj [(''ingredients'',
        JList [JObj [(''name'', JStr ''Rum''), (''amount'', JStr ''2 oz'')]])]] 0 = Inl ValueError \<and>
   lambda_handler
     (quiet_env (JList [JObj [(''ingredients'',
        JList [JObj [(''name'', JStr ''Rum''), (''amount'', JStr ''2 oz'')]])]]))
     default_event = Inl ValueError"
  by code_simp

end
